theory Spec2Isabelle
  imports
    Main
    "HOL-Library.Char_ord"
    "HOL-Library.List_Lexorder"
    "HOL-Library.FSet"
    "HOL-Library.Sublist"
begin

section \<open>Python values used by the two builder scripts\<close>

text \<open>
  A Python \<open>str\<close> is modelled as a \<open>string\<close> (a list of 8-bit characters). The
  model is exact on ASCII text; a character above 127 is kept as it is by
  \<open>lower\<close> and is never whitespace.
\<close>

subsection \<open>String methods\<close>

definition is_space :: "char \<Rightarrow> bool" where
  \<comment> \<open>\<open>str.isspace\<close> on ASCII: TAB, LF, VT, FF, CR, FS, GS, RS, US and space.\<close>
  "is_space c = (c \<in> set [CHR 0x09, CHR 0x0A, CHR 0x0B, CHR 0x0C, CHR 0x0D,
                           CHR 0x1C, CHR 0x1D, CHR 0x1E, CHR 0x1F, CHR 0x20])"

definition py_strip :: "string \<Rightarrow> string" where
  \<comment> \<open>\<open>s.strip()\<close>\<close>
  "py_strip s = rev (dropWhile is_space (rev (dropWhile is_space s)))"

definition py_strip_chars :: "string \<Rightarrow> string \<Rightarrow> string" where
  \<comment> \<open>\<open>s.strip(chars)\<close>\<close>
  "py_strip_chars cs s =
     rev (dropWhile (\<lambda>c. c \<in> set cs) (rev (dropWhile (\<lambda>c. c \<in> set cs) s)))"

definition py_rstrip_chars :: "string \<Rightarrow> string \<Rightarrow> string" where
  \<comment> \<open>\<open>s.rstrip(chars)\<close>\<close>
  "py_rstrip_chars cs s = rev (dropWhile (\<lambda>c. c \<in> set cs) (rev s))"

definition lower_char :: "char \<Rightarrow> char" where
  "lower_char c =
     (case map_of (zip ''ABCDEFGHIJKLMNOPQRSTUVWXYZ'' ''abcdefghijklmnopqrstuvwxyz'') c of
        Some l \<Rightarrow> l
      | None \<Rightarrow> c)"

definition py_lower :: "string \<Rightarrow> string" where
  \<comment> \<open>\<open>s.lower()\<close>\<close>
  "py_lower s = map lower_char s"

definition startswith :: "string \<Rightarrow> string \<Rightarrow> bool" where
  \<comment> \<open>\<open>s.startswith(p)\<close>, the prefix first\<close>
  "startswith p s = (take (length p) s = p)"

definition endswith :: "string \<Rightarrow> string \<Rightarrow> bool" where
  \<comment> \<open>\<open>s.endswith(p)\<close>, the suffix first\<close>
  "endswith p s = (length p \<le> length s \<and> drop (length s - length p) s = p)"

fun contains :: "string \<Rightarrow> string \<Rightarrow> bool" where
  \<comment> \<open>\<open>sub in s\<close>, the substring first\<close>
  "contains sub [] = (sub = [])"
| "contains sub (c # cs) = (startswith sub (c # cs) \<or> contains sub cs)"

definition before_first :: "char \<Rightarrow> string \<Rightarrow> string" where
  \<comment> \<open>\<open>s.split(sep)[0]\<close> and \<open>s.split(sep, 1)[0]\<close> for a one-character separator\<close>
  "before_first sep s = takeWhile (\<lambda>c. c \<noteq> sep) s"

definition after_last :: "char \<Rightarrow> string \<Rightarrow> string" where
  \<comment> \<open>\<open>s.rsplit(sep, 1)[-1]\<close> for a one-character separator\<close>
  "after_last sep s = rev (takeWhile (\<lambda>c. c \<noteq> sep) (rev s))"

fun str_of_nat :: "nat \<Rightarrow> string" where
  \<comment> \<open>\<open>str(n)\<close> for a non-negative integer: its decimal digits\<close>
  "str_of_nat n =
     (if n < 10 then [''0123456789'' ! n]
      else str_of_nat (n div 10) @ [''0123456789'' ! (n mod 10)])"

declare str_of_nat.simps [simp del]

definition str_of_int :: "int \<Rightarrow> string" where
  "str_of_int i = (if i < 0 then ''-'' @ str_of_nat (nat (- i)) else str_of_nat (nat i))"

fun join :: "string \<Rightarrow> string list \<Rightarrow> string" where
  \<comment> \<open>\<open>sep.join(xs)\<close>\<close>
  "join sep [] = []"
| "join sep [x] = x"
| "join sep (x # y # ys) = x @ sep @ join sep (y # ys)"

subsection \<open>JSON documents\<close>

text \<open>
  What \<open>json.loads\<close> returns: \<open>None\<close>, a \<open>bool\<close>, an \<open>int\<close>, a \<open>str\<close>, a
  \<open>list\<close> or a \<open>dict\<close>. A \<open>dict\<close> is the list of its items in insertion order,
  looked up with \<open>map_of\<close>. Floating-point numbers are outside the model.
\<close>

datatype json =
    JNull
  | JBool bool
  | JNum int
  | JStr string
  | JList "json list"
  | JObj "(string \<times> json) list"

fun truthy :: "json \<Rightarrow> bool" where
  \<comment> \<open>Python's truth value of a JSON value\<close>
  "truthy JNull = False"
| "truthy (JBool b) = b"
| "truthy (JNum n) = (n \<noteq> 0)"
| "truthy (JStr s) = (s \<noteq> [])"
| "truthy (JList xs) = (xs \<noteq> [])"
| "truthy (JObj kvs) = (kvs \<noteq> [])"

datatype py_error =
    TypeError
  | AttributeError
  | NameError string
  | JSONDecodeError
  | FileExistsError
  | FileNotFoundError
  | NotADirectoryError
  | IsADirectoryError

definition bindE :: "py_error + 'a \<Rightarrow> ('a \<Rightarrow> py_error + 'b) \<Rightarrow> py_error + 'b" where
  \<comment> \<open>sequencing: an exception raised by the first computation propagates\<close>
  "bindE m f = (case m of Inl e \<Rightarrow> Inl e | Inr x \<Rightarrow> f x)"

fun iter_json :: "json \<Rightarrow> py_error + json list" where
  \<comment> \<open>\<open>for x in v\<close>: a list gives its elements, a dict its keys, a string its
      characters; anything else raises \<open>TypeError\<close>\<close>
  "iter_json (JList xs) = Inr xs"
| "iter_json (JObj kvs) = Inr (map (\<lambda>kv. JStr (fst kv)) kvs)"
| "iter_json (JStr s) = Inr (map (\<lambda>c. JStr [c]) s)"
| "iter_json v = Inl TypeError"

definition repr_char :: "char \<Rightarrow> char \<Rightarrow> string" where
  \<comment> \<open>one character of \<open>repr(s)\<close>, for the chosen quote character\<close>
  "repr_char q c =
     (if c = q \<or> c = CHR 0x5C then [CHR 0x5C, c]
      else if c = CHR 0x09 then [CHR 0x5C, CHR ''t'']
      else if c = CHR 0x0A then [CHR 0x5C, CHR ''n'']
      else if c = CHR 0x0D then [CHR 0x5C, CHR ''r'']
      else if (of_char c :: nat) < 32 \<or> (of_char c :: nat) = 127 then
        [CHR 0x5C, CHR ''x'', ''0123456789abcdef'' ! ((of_char c :: nat) div 16),
         ''0123456789abcdef'' ! ((of_char c :: nat) mod 16)]
      else [c])"

definition repr_str :: "string \<Rightarrow> string" where
  \<comment> \<open>\<open>repr(s)\<close>: single quotes, unless the string has a single and no double quote\<close>
  "repr_str s =
     (let q = (if CHR 0x27 \<in> set s \<and> CHR 0x22 \<notin> set s then CHR 0x22 else CHR 0x27)
      in [q] @ concat (map (repr_char q) s) @ [q])"

fun py_repr :: "json \<Rightarrow> string" where
  "py_repr JNull = ''None''"
| "py_repr (JBool b) = (if b then ''True'' else ''False'')"
| "py_repr (JNum n) = str_of_int n"
| "py_repr (JStr s) = repr_str s"
| "py_repr (JList xs) = ''['' @ join '', '' (map py_repr xs) @ '']''"
| "py_repr (JObj kvs) =
     ''{'' @ join '', '' (map (\<lambda>kv. repr_str (fst kv) @ '': '' @ py_repr (snd kv)) kvs) @ ''}''"

definition py_str :: "json \<Rightarrow> string" where
  \<comment> \<open>\<open>str(v)\<close>: a string is itself, every other value its \<open>repr\<close>\<close>
  "py_str v = (case v of JStr s \<Rightarrow> s | _ \<Rightarrow> py_repr v)"

definition dict_get :: "(string \<times> json) list \<Rightarrow> string \<Rightarrow> json \<Rightarrow> json" where
  \<comment> \<open>\<open>d.get(k, default)\<close>\<close>
  "dict_get d k dflt = (case map_of d k of Some v \<Rightarrow> v | None \<Rightarrow> dflt)"

subsection \<open>Dictionaries\<close>

text \<open>
  A Python \<open>dict\<close> that is built and then iterated is the list of its items in
  insertion order; one that is only read is a map.
\<close>

fun dict_set :: "'k \<Rightarrow> 'v \<Rightarrow> ('k \<times> 'v) list \<Rightarrow> ('k \<times> 'v) list" where
  \<comment> \<open>\<open>d[k] = v\<close>: an existing key keeps its position, a new key goes last\<close>
  "dict_set k v [] = [(k, v)]"
| "dict_set k v ((k', v') # d) = (if k = k' then (k, v) # d else (k', v') # dict_set k v d)"

definition dict_setdefault :: "string \<Rightarrow> json \<Rightarrow> (string \<times> json) list \<Rightarrow> (string \<times> json) list" where
  \<comment> \<open>\<open>d.setdefault(k, v)\<close>, for its effect on the dict\<close>
  "dict_setdefault k v d = (if map_of d k = None then d @ [(k, v)] else d)"

section \<open>The file system\<close>

text \<open>
  A \<open>Path\<close> is the list of its components below the root directory; the file system is
  the list of its directories and regular files with their text. Paths are taken as
  normalized and absolute; permissions, symbolic links and \<open>..\<close> are outside the model.
  Every operation that can raise returns its error.
\<close>

type_synonym path = "string list"

datatype fnode = Dir | File string

type_synonym fs = "(path \<times> fnode) list"

definition fs_lookup :: "fs \<Rightarrow> path \<Rightarrow> fnode option" where
  \<comment> \<open>the root directory always exists\<close>
  "fs_lookup f p = (if p = [] then Some Dir else map_of f p)"

definition path_exists :: "fs \<Rightarrow> path \<Rightarrow> bool" where
  \<comment> \<open>\<open>p.exists()\<close>\<close>
  "path_exists f p = (fs_lookup f p \<noteq> None)"




definition read_text :: "fs \<Rightarrow> path \<Rightarrow> py_error + string" where
  "read_text f p =
     (case fs_lookup f p of
        Some (File s) \<Rightarrow> Inr s
      | Some Dir \<Rightarrow> Inl IsADirectoryError
      | None \<Rightarrow> Inl FileNotFoundError)"








section \<open>generate\_workflow\_dependencies.py: the resolver\<close>

text \<open>
  A compiled regular expression is used only through \<open>pattern.search(node_name)\<close>, so it
  is modelled by that test.
\<close>

type_synonym pattern = "string \<Rightarrow> bool"

record plugin_group =
  \<comment> \<open>a value of the local dict \<open>plugins\<close>: the keys \<open>id\<close>, \<open>nodes\<close>, \<open>metadata\<close>\<close>
  group_id :: string
  group_nodes :: "string fset"
  group_metadata :: "(string \<times> json) list"

record plugin_entry =
  \<comment> \<open>an element of \<open>plugin_list\<close>: the keys \<open>id\<close>, \<open>nodes\<close> and, when the metadata
      is not empty, \<open>metadata\<close>\<close>
  out_id :: string
  out_nodes :: "string list"
  out_metadata :: "(string \<times> json) list option"

fun pattern_match :: "(pattern \<times> string) list \<Rightarrow> string \<Rightarrow> string option" where
  \<comment> \<open>the loop over \<open>pattern_entries\<close>, left at the first pattern that matches\<close>
  "pattern_match [] node_name = None"
| "pattern_match ((pat, candidate_plugin) # rest) node_name =
     (if pat node_name then Some candidate_plugin else pattern_match rest node_name)"

definition is_builtin :: "string set \<Rightarrow> pattern list \<Rightarrow> string \<Rightarrow> bool" where
  \<comment> \<open>the test of line 303\<close>
  "is_builtin builtin_nodes builtin_patterns node_name =
     (node_name \<in> builtin_nodes \<or> list_ex (\<lambda>pat. pat node_name) builtin_patterns)"

definition resolve_node ::
  "(string \<rightharpoonup> string list) \<Rightarrow> (string \<rightharpoonup> string) \<Rightarrow> (pattern \<times> string) list \<Rightarrow>
   (string \<rightharpoonup> string) \<Rightarrow> string \<Rightarrow> string option" where
  \<comment> \<open>lines 305 to 323: the plugin id of one node name, \<open>None\<close> when no rule gives one;
      \<open>first_provider\<close> is \<open>plugin_ids[0]\<close> when \<open>plugin_ids\<close> is a non-empty list\<close>
  "resolve_node node_to_plugins preemption_map pattern_entries plugin_overrides node_name =
     (let override_plugin = plugin_overrides node_name;
          first_provider = (case node_to_plugins node_name of
                              Some (p # ps) \<Rightarrow> Some p
                            | _ \<Rightarrow> None);
          plugin_id =
            (if override_plugin \<noteq> None then override_plugin
             else
               let plugin_id = preemption_map node_name;
                   plugin_id = (if plugin_id = None then first_provider else plugin_id)
               in if plugin_id = None then pattern_match pattern_entries node_name
                  else plugin_id)
      in if plugin_id = None then first_provider else plugin_id)"

definition add_node ::
  "(string \<rightharpoonup> (string \<times> json) list) \<Rightarrow> string \<Rightarrow> string \<Rightarrow>
   (string \<times> plugin_group) list \<Rightarrow> (string \<times> plugin_group) list" where
  \<comment> \<open>\<open>plugins.setdefault(plugin_id, {...})["nodes"].add(node_name)\<close>\<close>
  "add_node plugin_metadata pid node_name plugins =
     (let entry = (case map_of plugins pid of
                     Some g \<Rightarrow> g
                   | None \<Rightarrow>
                       \<lparr>group_id = pid, group_nodes = {||},
                        group_metadata = (case plugin_metadata pid of Some m \<Rightarrow> m | None \<Rightarrow> [])\<rparr>)
      in dict_set pid (entry\<lparr>group_nodes := finsert node_name (group_nodes entry)\<rparr>) plugins)"

fun resolve_loop ::
  "string set \<Rightarrow> pattern list \<Rightarrow> (string \<rightharpoonup> string list) \<Rightarrow>
   (string \<rightharpoonup> (string \<times> json) list) \<Rightarrow> (string \<rightharpoonup> string) \<Rightarrow>
   (pattern \<times> string) list \<Rightarrow> (string \<rightharpoonup> string) \<Rightarrow> string list \<Rightarrow>
   (string \<times> plugin_group) list \<times> string fset \<Rightarrow>
   (string \<times> plugin_group) list \<times> string fset" where
  \<comment> \<open>the loop over the sorted node names, on the dict \<open>plugins\<close> and the set
      \<open>unresolved\<close>\<close>
  "resolve_loop bn bp n2p pm pre pats ovr [] st = st"
| "resolve_loop bn bp n2p pm pre pats ovr (node_name # rest) (plugins, unresolved) =
     (if is_builtin bn bp node_name then
        resolve_loop bn bp n2p pm pre pats ovr rest (plugins, unresolved)
      else
        case resolve_node n2p pre pats ovr node_name of
          None \<Rightarrow>
            resolve_loop bn bp n2p pm pre pats ovr rest (plugins, finsert node_name unresolved)
        | Some pid \<Rightarrow>
            resolve_loop bn bp n2p pm pre pats ovr rest
              (add_node pm pid node_name plugins, unresolved))"

definition group_entry :: "plugin_group \<Rightarrow> plugin_entry" where
  \<comment> \<open>lines 341 to 344: the sorted node list, the metadata only when it is not empty\<close>
  "group_entry g =
     \<lparr>out_id = group_id g, out_nodes = sorted_list_of_fset (group_nodes g),
      out_metadata = (if group_metadata g \<noteq> [] then Some (group_metadata g) else None)\<rparr>"

definition resolve_dependencies ::
  "string fset \<Rightarrow> string set \<Rightarrow> pattern list \<Rightarrow> (string \<rightharpoonup> string list) \<Rightarrow>
   (string \<rightharpoonup> (string \<times> json) list) \<Rightarrow> (string \<rightharpoonup> string) \<Rightarrow>
   (pattern \<times> string) list \<Rightarrow> (string \<rightharpoonup> string) \<Rightarrow>
   plugin_entry list \<times> string list" where
  "resolve_dependencies workflow_nodes builtin_nodes builtin_patterns node_to_plugins
       plugin_metadata preemption_map pattern_entries plugin_overrides =
     (let (plugins, unresolved) =
            resolve_loop builtin_nodes builtin_patterns node_to_plugins plugin_metadata
              preemption_map pattern_entries plugin_overrides
              (sorted_list_of_fset workflow_nodes) ([], {||})
      in (map (\<lambda>item. group_entry (snd item)) (sort_key fst plugins),
          sorted_list_of_fset unresolved))"

subsection \<open>Specification-side notions for the resolver\<close>

definition precedence_chain ::
  "(string \<rightharpoonup> string) \<Rightarrow> (string \<rightharpoonup> string) \<Rightarrow> (string \<rightharpoonup> string list) \<Rightarrow>
   (pattern \<times> string) list \<Rightarrow> string \<Rightarrow> string option" where
  \<comment> \<open>override, then preemption, then the first id of the provider list, then the
      first declared pattern that matches\<close>
  "precedence_chain plugin_overrides preemption_map node_to_plugins pattern_entries node_name =
     (case plugin_overrides node_name of
        Some forced \<Rightarrow> Some forced
      | None \<Rightarrow>
          (case preemption_map node_name of
             Some q \<Rightarrow> Some q
           | None \<Rightarrow>
               (case node_to_plugins node_name of
                  Some (p # ps) \<Rightarrow> Some p
                | _ \<Rightarrow> map_option snd (find (\<lambda>entry. fst entry node_name) pattern_entries))))"

definition groups_of :: "plugin_entry list \<Rightarrow> string \<Rightarrow> string list" where
  \<comment> \<open>the ids of the plugin groups of an output that list a node name\<close>
  "groups_of plugin_list node_name =
     map out_id (filter (\<lambda>e. node_name \<in> set (out_nodes e)) plugin_list)"

definition nodes_in :: "(string \<times> plugin_group) list \<Rightarrow> string \<Rightarrow> string set" where
  \<comment> \<open>the node names held by the group of a plugin id in the dict \<open>plugins\<close>\<close>
  "nodes_in plugins pid = (case map_of plugins pid of Some g \<Rightarrow> fset (group_nodes g) | None \<Rightarrow> {})"

definition well_keyed :: "(string \<times> plugin_group) list \<Rightarrow> bool" where
  \<comment> \<open>invariant of the dict \<open>plugins\<close>: one item per key, filed under its own id\<close>
  "well_keyed plugins = (distinct (map fst plugins) \<and> (\<forall>(k, g)\<in>set plugins. group_id g = k))"

section \<open>generate\_workflow\_dependencies.py: the catalog builder\<close>

text \<open>
  \<open>load_extension_node_map\<close> returns five tables; the model returns them as one record.
  The tables that are only read afterwards are maps. \<open>re.compile\<close> is a parameter: it
  gives the search test of a pattern, or \<open>None\<close> where Python raises \<open>re.error\<close>.
  Python's \<open>None\<close> is \<open>JNull\<close>, so \<open>d.get(k)\<close> is \<open>dict_get d k JNull\<close>.
\<close>

record node_map =
  node_to_plugins :: "string \<rightharpoonup> string list"
  plugin_metadata :: "string \<rightharpoonup> (string \<times> json) list"
  preemption_map :: "string \<rightharpoonup> string"
  pattern_entries :: "(pattern \<times> string) list"
  comfy_nodes :: "string set"

definition json_strings :: "json list \<Rightarrow> string list" where
  \<comment> \<open>\<open>[x for x in xs if isinstance(x, str)]\<close>\<close>
  "json_strings xs = concat (map (\<lambda>v. case v of JStr s \<Rightarrow> [s] | _ \<Rightarrow> []) xs)"

definition decode_value :: "json \<Rightarrow> string list \<times> (string \<times> json) list" where
  \<comment> \<open>lines 224 to 234: the node names and the metadata of a raw catalog value\<close>
  "decode_value v =
     (case v of
        JList (first # rest) \<Rightarrow>
          ((case first of JList xs \<Rightarrow> json_strings xs | _ \<Rightarrow> []),
           (case rest of JObj m # _ \<Rightarrow> m | _ \<Rightarrow> []))
      | JObj m \<Rightarrow> ([], m)
      | _ \<Rightarrow> ([], []))"

definition canonical_id :: "(string \<rightharpoonup> (string \<times> json) list) \<Rightarrow> string \<Rightarrow> string" where
  \<comment> \<open>lines 236 to 241\<close>
  "canonical_id custom_catalog raw_plugin_id =
     (case custom_catalog raw_plugin_id of
        Some custom_entry \<Rightarrow>
          if custom_entry \<noteq> [] then
            (case map_of custom_entry ''reference'' of
               Some (JStr r) \<Rightarrow> if r \<noteq> [] then r else raw_plugin_id
             | _ \<Rightarrow> raw_plugin_id)
          else raw_plugin_id
      | None \<Rightarrow> raw_plugin_id)"

definition combined_metadata ::
  "(string \<rightharpoonup> (string \<times> json) list) \<Rightarrow> string \<Rightarrow> (string \<times> json) list \<Rightarrow>
   (string \<times> json) list" where
  \<comment> \<open>lines 242 to 254: the directory fields fill only keys that the catalog metadata
      does not have\<close>
  "combined_metadata custom_catalog raw_plugin_id metadata =
     (case custom_catalog raw_plugin_id of
        Some custom_entry \<Rightarrow>
          if custom_entry \<noteq> [] then
            let cm = dict_setdefault ''reference'' (dict_get custom_entry ''reference'' JNull) metadata;
                cm = dict_setdefault ''author'' (dict_get custom_entry ''author'' JNull) cm;
                cm = dict_setdefault ''title'' (dict_get custom_entry ''title'' JNull) cm;
                cm = dict_setdefault ''install_type'' (dict_get custom_entry ''install_type'' JNull) cm;
                description = dict_get custom_entry ''description'' JNull;
                cm = (if truthy description \<and> map_of cm ''description'' = None
                      then dict_set ''description'' description cm else cm)
            in (case map_of custom_entry ''files'' of
                  Some (JList files) \<Rightarrow>
                    dict_setdefault ''files'' (JList (map JStr (json_strings files))) cm
                | _ \<Rightarrow> cm)
          else metadata
      | None \<Rightarrow> metadata)"

definition merge_metadata :: "(string \<times> json) list \<Rightarrow> (string \<times> json) list \<Rightarrow> (string \<times> json) list" where
  \<comment> \<open>lines 258 and 259: \<open>merged = dict(existing_meta)\<close>, then
      \<open>merged.update({k: v for k, v in combined_metadata.items() if v is not None})\<close>\<close>
  "merge_metadata existing_meta combined =
     fold (\<lambda>kv merged. dict_set (fst kv) (snd kv) merged)
       (filter (\<lambda>kv. snd kv \<noteq> JNull) combined) existing_meta"

definition providers :: "(string \<rightharpoonup> string list) \<Rightarrow> string \<Rightarrow> string list" where
  \<comment> \<open>\<open>node_to_plugins[name]\<close> of the \<open>defaultdict(list)\<close>\<close>
  "providers m name = (case m name of Some ids \<Rightarrow> ids | None \<Rightarrow> [])"

definition add_provider :: "string \<Rightarrow> string \<Rightarrow> (string \<rightharpoonup> string list) \<Rightarrow> (string \<rightharpoonup> string list)" where
  \<comment> \<open>lines 265 to 267, for one node name\<close>
  "add_provider cid node_name m =
     (let normalized = py_strip node_name
      in if normalized \<noteq> [] then m(normalized \<mapsto> providers m normalized @ [cid]) else m)"

definition comfy_repository :: string where
  "comfy_repository = ''https://github.com/comfyanonymous/ComfyUI''"

definition node_map_step ::
  "(string \<Rightarrow> pattern option) \<Rightarrow> (string \<rightharpoonup> (string \<times> json) list) \<Rightarrow> string \<times> json \<Rightarrow>
   node_map \<Rightarrow> node_map" where
  \<comment> \<open>the body of the loop over \<open>raw_data.items()\<close>\<close>
  "node_map_step compile custom_catalog item st =
     (let raw_plugin_id = fst item;
          (ns, metadata) = decode_value (snd item);
          cid = canonical_id custom_catalog raw_plugin_id;
          combined = combined_metadata custom_catalog raw_plugin_id metadata;
          stored = (case plugin_metadata st cid of
                      Some existing_meta \<Rightarrow>
                        if existing_meta \<noteq> [] then merge_metadata existing_meta combined
                        else combined
                    | None \<Rightarrow> combined)
      in \<lparr>node_to_plugins = fold (add_provider cid) ns (node_to_plugins st),
          plugin_metadata = (plugin_metadata st)(cid \<mapsto> stored),
          preemption_map =
            (case map_of metadata ''preemptions'' of
               Some (JList preemptions) \<Rightarrow>
                 fold (\<lambda>entry m. m(entry \<mapsto> cid)) (json_strings preemptions) (preemption_map st)
             | _ \<Rightarrow> preemption_map st),
          pattern_entries =
            (case map_of metadata ''nodename_pattern'' of
               Some (JStr p) \<Rightarrow>
                 if p \<noteq> [] then
                   (case compile p of
                      Some compiled \<Rightarrow> pattern_entries st @ [(compiled, cid)]
                    | None \<Rightarrow> pattern_entries st)
                 else pattern_entries st
             | _ \<Rightarrow> pattern_entries st),
          comfy_nodes =
            (if cid = comfy_repository then comfy_nodes st \<union> py_strip ` set ns
             else comfy_nodes st)\<rparr>)"

definition load_extension_node_map ::
  "(string \<Rightarrow> pattern option) \<Rightarrow> (string \<times> json) list \<Rightarrow>
   (string \<rightharpoonup> (string \<times> json) list) \<Rightarrow> node_map" where
  "load_extension_node_map compile raw_data custom_catalog =
     fold (node_map_step compile custom_catalog) raw_data
       \<lparr>node_to_plugins = Map.empty, plugin_metadata = Map.empty, preemption_map = Map.empty,
        pattern_entries = [], comfy_nodes = {}\<rparr>"

subsection \<open>Specification-side notions for the catalog builder\<close>

definition stripped_nodes :: "json \<Rightarrow> string set" where
  \<comment> \<open>the node names a raw catalog value contributes: stripped, the empty ones dropped\<close>
  "stripped_nodes v = {n \<in> py_strip ` set (fst (decode_value v)). n \<noteq> []}"

definition non_null_items :: "(string \<times> json) list \<Rightarrow> (string \<rightharpoonup> json)" where
  \<comment> \<open>the dict of the items whose value is not \<open>None\<close>\<close>
  "non_null_items d = map_of (rev (filter (\<lambda>kv. snd kv \<noteq> JNull) d))"

section \<open>generate\_workflow\_dependencies.py: loading the node map\<close>

text \<open>
  Lines 451 to 473 of \<open>main\<close>. A name is read from the scope: the local variables of
  \<open>main\<close> that are bound at this point and the names of the module. Only what the code
  does with the value matters here, so a value is a \<open>Path\<close> or something else. The
  branch ends by loading a document, by the documented fatal error (a message and
  \<open>sys.exit(1)\<close>), or by an exception.
\<close>

datatype pyval = PathVal path | OtherVal

datatype load_outcome = Loaded json | FatalExit nat

definition lookup_name :: "(string \<times> pyval) list \<Rightarrow> string \<Rightarrow> py_error + pyval" where
  \<comment> \<open>reading a variable: \<open>NameError\<close> when nothing binds the name\<close>
  "lookup_name scope name =
     (case map_of scope name of Some v \<Rightarrow> Inr v | None \<Rightarrow> Inl (NameError name))"

definition read_json :: "(string \<Rightarrow> json option) \<Rightarrow> fs \<Rightarrow> path \<Rightarrow> py_error + json" where
  \<comment> \<open>\<open>json.loads(p.read_text(encoding="utf-8"))\<close>\<close>
  "read_json loads f p =
     bindE (read_text f p) (\<lambda>s.
       case loads s of Some d \<Rightarrow> Inr d | None \<Rightarrow> Inl JSONDecodeError)"

definition merge_fallback :: "json \<Rightarrow> json \<Rightarrow> py_error + json" where
  \<comment> \<open>lines 464 and 465: \<open>node_map_data.setdefault(key, value)\<close> for every item of
      \<open>fallback_data\<close>\<close>
  "merge_fallback node_map_data fallback_data =
     (case fallback_data of
        JObj fallback_items \<Rightarrow>
          if fallback_items = [] then Inr node_map_data
          else
            (case node_map_data of
               JObj d \<Rightarrow>
                 Inr (JObj (fold (\<lambda>item acc. dict_setdefault (fst item) (snd item) acc)
                              fallback_items d))
             | _ \<Rightarrow> Inl AttributeError)
      | _ \<Rightarrow> Inl AttributeError)"

definition node_map_file :: "path \<Rightarrow> path" where
  \<comment> \<open>\<open>manager_root / "node_db" / "dev" / "extension-node-map.json"\<close>\<close>
  "node_map_file manager_root = manager_root @ [''node_db'', ''dev'', ''extension-node-map.json'']"

definition load_node_map_data ::
  "(string \<Rightarrow> json option) \<Rightarrow> fs \<Rightarrow> (string \<times> pyval) list \<Rightarrow> path option \<Rightarrow> path \<Rightarrow>
   py_error + load_outcome" where
  "load_node_map_data loads f scope node_map manager_root =
     (case node_map of
        Some node_map_path \<Rightarrow>
          if \<not> path_exists f node_map_path then Inr (FatalExit 1)
          else bindE (read_json loads f node_map_path) (\<lambda>d. Inr (Loaded d))
      | None \<Rightarrow>
          (let preferred = node_map_file manager_root
           in if path_exists f preferred then
                bindE (read_json loads f preferred) (\<lambda>node_map_data.
                  bindE (lookup_name scope ''fallback'') (\<lambda>fallback.
                    case fallback of
                      PathVal fb \<Rightarrow>
                        if path_exists f fb then
                          bindE (read_json loads f fb) (\<lambda>fallback_data.
                            bindE (merge_fallback node_map_data fallback_data) (\<lambda>merged.
                              Inr (Loaded merged)))
                        else Inr (Loaded node_map_data)
                    | OtherVal \<Rightarrow> Inl AttributeError))
              else
                bindE (lookup_name scope ''fallback'') (\<lambda>fallback.
                  case fallback of
                    PathVal fb \<Rightarrow>
                      if path_exists f fb then
                        bindE (read_json loads f fb) (\<lambda>d. Inr (Loaded d))
                      else Inr (FatalExit 1)
                  | OtherVal \<Rightarrow> Inl AttributeError)))"

definition module_names :: "string list" where
  \<comment> \<open>the names bound at module level: the imports, the functions and the class\<close>
  "module_names =
     [''annotations'', ''argparse'', ''ast'', ''json'', ''re'', ''subprocess'', ''sys'',
      ''defaultdict'', ''Path'', ''Dict'', ''Iterable'', ''List'', ''Optional'', ''Pattern'',
      ''Sequence'', ''Set'', ''Tuple'', ''parse_args'', ''NodeClassCollector'',
      ''gather_builtin_nodes'', ''load_workflow_nodes'', ''load_custom_node_catalog'',
      ''load_extension_node_map'', ''resolve_dependencies'', ''load_special_config'',
      ''_maybe_compile_pattern'', ''ensure_repo'', ''main'']"

definition main_scope :: "path \<Rightarrow> path \<Rightarrow> path \<Rightarrow> path option \<Rightarrow> (string \<times> pyval) list" where
  \<comment> \<open>the scope of \<open>main\<close> where the default branch starts: \<open>fallback_root\<close> is bound
      only when one of the two repositories was fetched again; the name \<open>fallback\<close> is
      assigned nowhere in the script, and Python has no builtin of that name\<close>
  "main_scope script_dir comfy_root manager_root fallback_root =
     [(''args'', OtherVal), (''script_dir'', PathVal script_dir),
      (''comfy_root'', PathVal comfy_root), (''manager_root'', PathVal manager_root),
      (''required_manager_files'', OtherVal)]
     @ (case fallback_root of Some p \<Rightarrow> [(''fallback_root'', PathVal p)] | None \<Rightarrow> [])
     @ [(''required_comfy_files'', OtherVal), (''workflow_nodes'', OtherVal),
        (''builtin_nodes'', OtherVal), (''node_map_data'', OtherVal),
        (''preferred'', PathVal (node_map_file manager_root))]
     @ map (\<lambda>name. (name, OtherVal)) module_names"

section \<open>apply\_workflow\_custom\_nodes.py: planning\<close>

datatype plan_status = Planned | Skipped | Cloned | Failed

text \<open>
  The messages of a plan are Chinese sentences in the source; the model names them by
  what they say (in source order: no usable repository address found; directory exists,
  clone skipped; git executable not found; the captured stderr of git; git clone failed).
\<close>

datatype plan_message =
    NoRepositoryAddress
  | DirectoryExists
  | GitNotFound
  | GitStderr string
  | GitCloneFailed

record PluginPlan =
  plugin_id :: string
  nodes :: "string list"
  repo_url :: "string option"
  slug :: "string option"
  reason :: "string option"
  status :: plan_status
  message :: "plan_message option"
  requirements :: "path list"

definition normalize_git_url :: "string option \<Rightarrow> string option" where
  "normalize_git_url candidate =
     (case candidate of
        None \<Rightarrow> None
      | Some c \<Rightarrow>
          if c = [] then None
          else
            let url = py_strip c in
            if url = [] then None
            else
              let url = (if startswith ''git+'' url then drop 4 url else url);
                  lowered = py_lower url
              in if startswith ''http://'' lowered \<or> startswith ''https://'' lowered
                    \<or> startswith ''ssh://'' lowered
                    \<or> CHR ''@'' \<in> set (before_first CHR ''/'' url)
                 then Some url else None)"

definition slug_char :: "char \<Rightarrow> bool" where
  \<comment> \<open>the character class \<open>[a-zA-Z0-9._-]\<close>\<close>
  "slug_char c =
     (c \<in> set ''abcdefghijklmnopqrstuvwxyzABCDEFGHIJKLMNOPQRSTUVWXYZ0123456789._-'')"

primrec sub_runs :: "bool \<Rightarrow> string \<Rightarrow> string" where
  \<comment> \<open>\<open>re.sub(r"[^a-zA-Z0-9._-]+", "-", s)\<close>: every maximal run of characters outside
      the class becomes one hyphen; the flag says that a run is being skipped\<close>
  "sub_runs in_run [] = []"
| "sub_runs in_run (c # cs) =
     (if slug_char c then c # sub_runs False cs
      else if in_run then sub_runs True cs
      else CHR ''-'' # sub_runs True cs)"

definition slugify :: "string \<Rightarrow> string" where
  "slugify name =
     (let cleaned = py_lower (py_strip_chars ''-'' (sub_runs False name))
      in if cleaned = [] then ''custom-node'' else cleaned)"

definition slug_candidate :: "string \<Rightarrow> nat \<Rightarrow> string" where
  \<comment> \<open>\<open>f"{slug}-{idx}"\<close>\<close>
  "slug_candidate s idx = s @ ''-'' @ str_of_nat idx"

text \<open>
  The loop of \<open>ensure_unique_slug\<close> ends because the decimal numerals of different
  indices differ, so only finitely many candidates can be taken.
\<close>

definition digit_val :: "char \<Rightarrow> nat" where
  "digit_val c = (of_char c :: nat) - 48"

definition nat_of_str :: "string \<Rightarrow> nat" where
  "nat_of_str s = foldl (\<lambda>a c. 10 * a + digit_val c) 0 s"

lemma digit_val_digit: "n < 10 \<Longrightarrow> digit_val (''0123456789'' ! n) = n"
proof -
  assume "n < 10"
  then have "n \<in> {0, 1, 2, 3, 4, 5, 6, 7, 8, 9}" by auto
  then show ?thesis
    by (auto simp: digit_val_def)
qed

lemma nat_of_str_of_nat: "nat_of_str (str_of_nat n) = n"
proof (induction n rule: str_of_nat.induct)
  case (1 n)
  show ?case
  proof (cases "n < 10")
    case True
    then show ?thesis
      by (subst str_of_nat.simps) (simp add: nat_of_str_def digit_val_digit)
  next
    case False
    then have "nat_of_str (str_of_nat (n div 10)) = n div 10"
      using "1" by simp
    then show ?thesis
      using False
      by (subst str_of_nat.simps) (simp add: nat_of_str_def digit_val_digit)
  qed
qed

lemma str_of_nat_inj: "str_of_nat m = str_of_nat n \<Longrightarrow> m = n"
  by (metis nat_of_str_of_nat)

lemma slug_candidate_inj: "slug_candidate s m = slug_candidate s n \<Longrightarrow> m = n"
  by (simp add: slug_candidate_def str_of_nat_inj)

lemma finite_candidates: "finite {k. slug_candidate s k |\<in>| ex}"
proof -
  have "inj_on (slug_candidate s) {k. slug_candidate s k |\<in>| ex}"
    by (auto simp: inj_on_def dest: slug_candidate_inj)
  moreover have "slug_candidate s ` {k. slug_candidate s k |\<in>| ex} \<subseteq> fset ex"
    by auto
  ultimately show ?thesis
    by (meson finite_fset finite_subset inj_on_finite)
qed

function ensure_loop :: "string \<Rightarrow> string fset \<Rightarrow> nat \<Rightarrow> string \<times> string fset" where
  \<comment> \<open>the \<open>while True\<close> loop of \<open>ensure_unique_slug\<close>, from the index \<open>idx\<close>\<close>
  "ensure_loop s existing idx =
     (let candidate = slug_candidate s idx
      in if candidate |\<notin>| existing then (candidate, finsert candidate existing)
         else ensure_loop s existing (idx + 1))"
  by pat_completeness auto
termination
proof (relation "measure (\<lambda>(s, ex, idx). card {k. idx \<le> k \<and> slug_candidate s k |\<in>| ex})")
  show "wf (measure (\<lambda>(s, ex, idx). card {k. idx \<le> k \<and> slug_candidate s k |\<in>| ex}))"
    by simp
next
  fix s :: string and existing :: "string fset" and idx :: nat and x :: string
  assume x: "x = slug_candidate s idx" and "\<not> x |\<notin>| existing"
  then have mem: "slug_candidate s idx |\<in>| existing" by simp
  have fin: "finite {k. idx \<le> k \<and> slug_candidate s k |\<in>| existing}"
    by (rule finite_subset [OF _ finite_candidates [of s existing]]) auto
  have "{k. idx + 1 \<le> k \<and> slug_candidate s k |\<in>| existing}
          \<subset> {k. idx \<le> k \<and> slug_candidate s k |\<in>| existing}"
  proof
    show "{k. idx + 1 \<le> k \<and> slug_candidate s k |\<in>| existing}
            \<subseteq> {k. idx \<le> k \<and> slug_candidate s k |\<in>| existing}"
      by auto
    have "idx \<in> {k. idx \<le> k \<and> slug_candidate s k |\<in>| existing}"
      using mem by simp
    moreover have "idx \<notin> {k. idx + 1 \<le> k \<and> slug_candidate s k |\<in>| existing}"
      by simp
    ultimately show "{k. idx + 1 \<le> k \<and> slug_candidate s k |\<in>| existing}
            \<noteq> {k. idx \<le> k \<and> slug_candidate s k |\<in>| existing}"
      by blast
  qed
  then have "card {k. idx + 1 \<le> k \<and> slug_candidate s k |\<in>| existing}
          < card {k. idx \<le> k \<and> slug_candidate s k |\<in>| existing}"
    by (rule psubset_card_mono [OF fin])
  then show "((s, existing, idx + 1), (s, existing, idx))
      \<in> measure (\<lambda>(s, ex, idx). card {k. idx \<le> k \<and> slug_candidate s k |\<in>| ex})"
    by simp
qed

declare ensure_loop.simps [simp del]

definition ensure_unique_slug :: "string \<Rightarrow> string fset \<Rightarrow> string \<times> string fset" where
  \<comment> \<open>returns the slug and the updated set \<open>existing\<close>\<close>
  "ensure_unique_slug s existing =
     (if s |\<notin>| existing then (s, finsert s existing) else ensure_loop s existing 2)"

definition url_slug_part :: "string \<Rightarrow> string" where
  \<comment> \<open>the first four lines of \<open>derive_slug\<close>: drop the query string and trailing
      slashes, drop a final \<open>.git\<close>, keep the last path segment\<close>
  "url_slug_part u =
     (let cleaned = py_rstrip_chars ''/'' (before_first CHR ''?'' u);
          cleaned = (if endswith ''.git'' cleaned then take (length cleaned - 4) cleaned
                     else cleaned)
      in after_last CHR ''/'' cleaned)"

definition derive_slug :: "string \<Rightarrow> string fset \<Rightarrow> string \<times> string fset" where
  "derive_slug u used = ensure_unique_slug (slugify (url_slug_part u)) used"

definition metadata_keys :: "string list" where
  "metadata_keys = [''repo'', ''repository'', ''github'', ''git'', ''url'', ''homepage'']"

definition metadata_candidate :: "(string \<times> json) list \<Rightarrow> string \<Rightarrow> string option" where
  \<comment> \<open>\<open>normalize_git_url(candidate if isinstance(candidate, str) else None)\<close> for
      \<open>candidate = metadata.get(key)\<close>\<close>
  "metadata_candidate md k =
     normalize_git_url (case map_of md k of Some (JStr s) \<Rightarrow> Some s | _ \<Rightarrow> None)"

fun metadata_repo :: "(string \<times> json) list \<Rightarrow> string list \<Rightarrow> (string \<times> string) option" where
  \<comment> \<open>the loop over the metadata keys: the URL and the reason of the first key whose
      value normalizes\<close>
  "metadata_repo md [] = None"
| "metadata_repo md (k # ks) =
     (case metadata_candidate md k of
        Some u \<Rightarrow> Some (u, ''metadata.'' @ k)
      | None \<Rightarrow> metadata_repo md ks)"

definition resolve_repo :: "string \<Rightarrow> json option \<Rightarrow> string option \<times> string option" where
  \<comment> \<open>lines 151 to 164 of \<open>plan_plugins\<close>: the repository URL and the reason\<close>
  "resolve_repo pid metadata =
     (case (case metadata of Some (JObj md) \<Rightarrow> metadata_repo md metadata_keys | _ \<Rightarrow> None) of
        Some (u, r) \<Rightarrow> (Some u, Some r)
      | None \<Rightarrow>
          (case normalize_git_url (Some pid) of
             Some u \<Rightarrow> (Some u, Some ''plugin_id'')
           | None \<Rightarrow> (None, None)))"

definition entry_nodes :: "json list \<Rightarrow> string list" where
  \<comment> \<open>\<open>[str(node) for node in items if isinstance(node, str)]\<close>\<close>
  "entry_nodes items = concat (map (\<lambda>v. case v of JStr s \<Rightarrow> [s] | _ \<Rightarrow> []) items)"

definition plan_entry ::
  "(string \<times> json) list \<Rightarrow> string fset \<Rightarrow> py_error + (PluginPlan \<times> string fset)" where
  \<comment> \<open>the loop body of \<open>plan_plugins\<close> for an entry that is a dict\<close>
  "plan_entry entry used =
     (let pid = py_strip (py_str (dict_get entry ''id'' (JStr [])))
      in bindE (iter_json (dict_get entry ''nodes'' (JList []))) (\<lambda>items.
           let (url, why) = resolve_repo pid (map_of entry ''metadata'');
               (sl, used') = (case url of
                                Some u \<Rightarrow> (let (s, used') = derive_slug u used in (Some s, used'))
                              | None \<Rightarrow> (None, used))
           in Inr (\<lparr>plugin_id = (if pid = [] then ''<unknown>'' else pid),
                     nodes = entry_nodes items, repo_url = url, slug = sl, reason = why,
                     status = Planned, message = None, requirements = []\<rparr>, used')))"

fun plan_loop :: "json list \<Rightarrow> string fset \<Rightarrow> py_error + PluginPlan list" where
  \<comment> \<open>\<open>for entry in raw_plugins\<close>, with the set of used slugs\<close>
  "plan_loop [] used = Inr []"
| "plan_loop (e # es) used =
     (case e of
        JObj entry \<Rightarrow>
          bindE (plan_entry entry used) (\<lambda>(p, used').
            bindE (plan_loop es used') (\<lambda>ps. Inr (p # ps)))
      | _ \<Rightarrow> plan_loop es used)"

definition plan_plugins :: "json \<Rightarrow> py_error + (PluginPlan list \<times> string list)" where
  \<comment> \<open>\<open>deps.get\<close> raises \<open>AttributeError\<close> when the document is not a dict; a string
      is a \<open>Sequence\<close> too, but none of its characters is a dict\<close>
  "plan_plugins deps =
     (case deps of
        JObj d \<Rightarrow>
          (let u = dict_get d ''unresolved_nodes'' (JList [])
           in bindE (iter_json (if truthy u then u else JList [])) (\<lambda>items.
                let unresolved_nodes = map py_str items
                in case map_of d ''plugins'' of
                     Some (JList es) \<Rightarrow>
                       bindE (plan_loop es {||}) (\<lambda>plans. Inr (plans, unresolved_nodes))
                   | _ \<Rightarrow> Inr ([], unresolved_nodes)))
      | _ \<Rightarrow> Inl AttributeError)"

subsection \<open>Specification-side notions for planning\<close>

definition entry_id :: "(string \<times> json) list \<Rightarrow> string" where
  \<comment> \<open>the plugin id \<open>plan_plugins\<close> reads from an entry\<close>
  "entry_id entry = py_strip (py_str (dict_get entry ''id'' (JStr [])))"

definition dict_entries :: "json list \<Rightarrow> (string \<times> json) list list" where
  \<comment> \<open>the entries of the manifest that are dicts; the others are passed over\<close>
  "dict_entries es = concat (map (\<lambda>e. case e of JObj d \<Rightarrow> [d] | _ \<Rightarrow> []) es)"

definition metadata_first_url :: "string \<Rightarrow> json option \<Rightarrow> string option" where
  \<comment> \<open>the URL of the first metadata key, in priority order, whose value normalizes;
      the normalized plugin id when there is none\<close>
  "metadata_first_url pid metadata =
     (case (case metadata of
              Some (JObj md) \<Rightarrow> find (\<lambda>k. metadata_candidate md k \<noteq> None) metadata_keys
            | _ \<Rightarrow> None) of
        Some k \<Rightarrow> (case metadata of Some (JObj md) \<Rightarrow> metadata_candidate md k | _ \<Rightarrow> None)
      | None \<Rightarrow> normalize_git_url (Some pid))"


definition plan_slugs :: "PluginPlan list \<Rightarrow> string list" where
  \<comment> \<open>the slugs assigned to a list of plans, in order\<close>
  "plan_slugs plans = concat (map (\<lambda>p. case slug p of Some s \<Rightarrow> [s] | None \<Rightarrow> []) plans)"

definition first_free_slug :: "string \<Rightarrow> string set \<Rightarrow> string" where
  \<comment> \<open>specification of \<open>ensure_unique_slug\<close>: the base slug when it is free, else the
      base with the least index from 2 whose candidate is free\<close>
  "first_free_slug base taken =
     (if base \<notin> taken then base
      else slug_candidate base (LEAST k. 2 \<le> k \<and> slug_candidate base k \<notin> taken))"

section \<open>apply\_workflow\_custom\_nodes.py: fetching and requirements\<close>

subsection \<open>Fetching a plugin\<close>

text \<open>
  The fetch collaborator is the \<open>git clone\<close> subprocess. It is a parameter: given the URL,
  the target and the file system it returns how the call ended and the file system it
  left. The world is the file system and the log of the fetches that were started.
\<close>

datatype git_result =
    GitOk
  | GitMissing
  | GitError string

type_synonym fetcher = "string \<Rightarrow> path \<Rightarrow> fs \<Rightarrow> git_result \<times> fs"

record world =
  files :: fs
  fetch_log :: "(string \<times> path) list"


subsection \<open>Requirement lines\<close>



















subsection \<open>Specification-side notions for the requirement aggregator\<close>







subsection \<open>The summary and the main program\<close>

text \<open>
  The summary is the dict that \<open>write_summary\<close> builds, as a record; the fields of a
  plugin are the keys \<open>id\<close>, \<open>repo_url\<close>, \<open>slug\<close>, \<open>nodes\<close>, \<open>status\<close>,
  \<open>reason\<close>, \<open>message\<close> and \<open>requirements_files\<close>. Its serialization by
  \<open>json.dumps\<close>, like the parsing of the manifest by \<open>json.loads\<close> (\<open>None\<close> where it
  raises), is a parameter. Messages printed to the terminal are left out.
\<close>

record plugin_summary =
  sum_id :: string
  sum_repo_url :: "string option"
  sum_slug :: "string option"
  sum_nodes :: "string list"
  sum_status :: plan_status
  sum_reason :: "string option"
  sum_message :: "plan_message option"
  sum_requirements_files :: "string list"

record summary =
  workflow_plugins :: "plugin_summary list"
  unresolved_nodes :: "string list"
  collected_requirements :: "string list"

record collaborators =
  git :: fetcher
  json_loads :: "string \<Rightarrow> json option"
  json_dumps :: "summary \<Rightarrow> string"

record args =
  deps :: path
  custom_node_root :: path
  requirements_output :: path
  summary_output :: path
  pak3 :: path
  pak7 :: path









section \<open>Collaborators and a small world for the examples\<close>

definition git_absent :: fetcher where
  \<comment> \<open>a machine without a git executable: every fetch ends with \<open>FileNotFoundError\<close>\<close>
  "git_absent url target f = (GitMissing, f)"

definition dumps_ids :: "summary \<Rightarrow> string" where
  \<comment> \<open>a stand-in for \<open>json.dumps\<close> in the examples: the plugin ids, one per line\<close>
  "dumps_ids s = join [CHR 0x0A] (map sum_id (workflow_plugins s))"

definition example_manifest_text :: string where
  \<open>example_manifest_text =
     ''{"plugins": [{"id": "https://example.com/foo.git", "nodes": ["Foo"]}, '' @
     ''{"id": "bare-label", "nodes": ["Bar"]}], "unresolved_nodes": ["Baz"]}''\<close>

definition example_manifest :: json where
  "example_manifest =
     JObj [(''plugins'', JList [
             JObj [(''id'', JStr ''https://example.com/foo.git''), (''nodes'', JList [JStr ''Foo''])],
             JObj [(''id'', JStr ''bare-label''), (''nodes'', JList [JStr ''Bar''])]]),
           (''unresolved_nodes'', JList [JStr ''Baz''])]"

definition example_env :: collaborators where
  \<comment> \<open>no git executable; the parser knows the example manifest\<close>
  "example_env =
     \<lparr>git = git_absent, json_loads = [example_manifest_text \<mapsto> example_manifest],
      json_dumps = dumps_ids\<rparr>"





section \<open>Verification: the resolver\<close>

lemma sorted_list_of_fset_of_list: "sorted_list_of_fset (fset_of_list xs) = sort (remdups xs)"
  by (simp add: sorted_list_of_fset.rep_eq fset_of_list.rep_eq sorted_list_of_set_sort_remdups)

lemma sorted_list_of_fset_finsert:
  "sorted_list_of_fset (finsert x A) =
     (if x |\<in>| A then sorted_list_of_fset A else insort x (sorted_list_of_fset A))"
proof (cases "x |\<in>| A")
  case True
  then have "finsert x A = A" by (rule finsert_absorb)
  with True show ?thesis by simp
next
  case False
  then show ?thesis by (simp add: sorted_list_of_fset.rep_eq)
qed

lemma sorted_list_of_fset_empty: "sorted_list_of_fset {||} = []"
  by (simp add: sorted_list_of_fset.rep_eq)

lemmas resolver_eval =
  resolve_dependencies_def sorted_list_of_fset_of_list is_builtin_def resolve_node_def
  add_node_def group_entry_def sorted_list_of_fset_finsert sorted_list_of_fset_empty
  startswith_def precedence_chain_def groups_of_def


lemma map_of_dict_set: "map_of (dict_set k v d) = (map_of d)(k \<mapsto> v)"
  by (induction k v d rule: dict_set.induct) (auto simp: fun_eq_iff)

lemma fst_set_dict_set: "fst ` set (dict_set k v d) = insert k (fst ` set d)"
  by (induction k v d rule: dict_set.induct) auto

lemma distinct_dict_set: "distinct (map fst d) \<Longrightarrow> distinct (map fst (dict_set k v d))"
  by (induction k v d rule: dict_set.induct) (auto simp: fst_set_dict_set)

lemma set_dict_set: "set (dict_set k v d) \<subseteq> insert (k, v) (set d)"
  by (induction k v d rule: dict_set.induct) auto

lemma well_keyed_add_node:
  assumes wk: "well_keyed plugins"
  shows "well_keyed (add_node pm pid n plugins)"
proof -
  define entry where "entry = (case map_of plugins pid of
                     Some g \<Rightarrow> g
                   | None \<Rightarrow>
                       \<lparr>group_id = pid, group_nodes = {||},
                        group_metadata = (case pm pid of Some m \<Rightarrow> m | None \<Rightarrow> [])\<rparr>)"
  define g' where "g' = entry\<lparr>group_nodes := finsert n (group_nodes entry)\<rparr>"
  have add: "add_node pm pid n plugins = dict_set pid g' plugins"
    by (simp add: add_node_def entry_def g'_def Let_def)
  have "group_id entry = pid"
  proof (cases "map_of plugins pid")
    case None
    then show ?thesis by (simp add: entry_def)
  next
    case (Some g)
    then have "(pid, g) \<in> set plugins" by (rule map_of_SomeD)
    with wk have "group_id g = pid" by (auto simp: well_keyed_def)
    with Some show ?thesis by (simp add: entry_def)
  qed
  then have g': "group_id g' = pid" by (simp add: g'_def)
  have "\<forall>(k, g)\<in>set (dict_set pid g' plugins). group_id g = k"
  proof (clarify)
    fix k g assume "(k, g) \<in> set (dict_set pid g' plugins)"
    with set_dict_set [of pid g' plugins] have "(k, g) = (pid, g') \<or> (k, g) \<in> set plugins"
      by auto
    with g' wk show "group_id g = k" by (auto simp: well_keyed_def)
  qed
  moreover have "distinct (map fst (dict_set pid g' plugins))"
    using wk by (simp add: well_keyed_def distinct_dict_set)
  ultimately show ?thesis by (simp add: well_keyed_def add)
qed

lemma nodes_in_add_node:
  "nodes_in (add_node pm pid n plugins) q =
     (if q = pid then insert n (nodes_in plugins q) else nodes_in plugins q)"
  by (auto simp: nodes_in_def add_node_def Let_def map_of_dict_set split: option.splits)

lemma resolve_loop_inv:
  assumes "resolve_loop bn bp n2p pm pre pats ovr names (plugins, unresolved) = (plugins', unresolved')"
  shows "(well_keyed plugins \<longrightarrow> well_keyed plugins')
       \<and> fset unresolved' = fset unresolved \<union>
            {n \<in> set names. \<not> is_builtin bn bp n \<and> resolve_node n2p pre pats ovr n = None}
       \<and> (\<forall>pid. nodes_in plugins' pid = nodes_in plugins pid \<union>
            {n \<in> set names. \<not> is_builtin bn bp n \<and> resolve_node n2p pre pats ovr n = Some pid})"
  using assms
proof (induction names arbitrary: plugins unresolved)
  case Nil
  then show ?case by simp
next
  case (Cons n names)
  let ?loop = "resolve_loop bn bp n2p pm pre pats ovr names"
  let ?U = "\<lambda>ns. {m \<in> set ns. \<not> is_builtin bn bp m \<and> resolve_node n2p pre pats ovr m = None}"
  let ?R = "\<lambda>ns q. {m \<in> set ns. \<not> is_builtin bn bp m \<and> resolve_node n2p pre pats ovr m = Some q}"
  show ?case
  proof (cases "is_builtin bn bp n")
    case True
    with Cons.prems have "?loop (plugins, unresolved) = (plugins', unresolved')"
      by simp
    from Cons.IH [OF this] have
      wk: "well_keyed plugins \<longrightarrow> well_keyed plugins'" and
      un: "fset unresolved' = fset unresolved \<union> ?U names" and
      no: "\<And>q. nodes_in plugins' q = nodes_in plugins q \<union> ?R names q"
      by blast+
    have "?U (n # names) = ?U names" "\<And>q. ?R (n # names) q = ?R names q"
      using True by auto
    with wk un no show ?thesis by presburger
  next
    case False
    show ?thesis
    proof (cases "resolve_node n2p pre pats ovr n")
      case None
      with False Cons.prems have "?loop (plugins, finsert n unresolved) = (plugins', unresolved')"
        by simp
      from Cons.IH [OF this] have
        wk: "well_keyed plugins \<longrightarrow> well_keyed plugins'" and
        un: "fset unresolved' = fset (finsert n unresolved) \<union> ?U names" and
        no: "\<And>q. nodes_in plugins' q = nodes_in plugins q \<union> ?R names q"
        by blast+
      have "?U (n # names) = insert n (?U names)" "\<And>q. ?R (n # names) q = ?R names q"
        using False None by auto
      with wk un no show ?thesis by simp
    next
      case (Some pid)
      with False Cons.prems have "?loop (add_node pm pid n plugins, unresolved) = (plugins', unresolved')"
        by simp
      from Cons.IH [OF this] have
        wk: "well_keyed (add_node pm pid n plugins) \<longrightarrow> well_keyed plugins'" and
        un: "fset unresolved' = fset unresolved \<union> ?U names" and
        no: "\<And>q. nodes_in plugins' q = nodes_in (add_node pm pid n plugins) q \<union> ?R names q"
        by blast+
      have 1: "well_keyed plugins \<longrightarrow> well_keyed plugins'"
        using wk well_keyed_add_node by blast
      have U: "?U (n # names) = ?U names"
        using Some by auto
      have R: "?R (n # names) q = (if q = pid then insert n (?R names q) else ?R names q)" for q
        using Some False by auto
      have 3: "nodes_in plugins' q = nodes_in plugins q \<union> ?R (n # names) q" for q
        unfolding no [of q] nodes_in_add_node R by simp
      from 1 un U 3 show ?thesis by presburger
    qed
  qed
qed


lemma pattern_match_find:
  "pattern_match pats n = map_option snd (find (\<lambda>entry. fst entry n) pats)"
  by (induction pats n rule: pattern_match.induct) auto

lemma resolve_node_chain:
  "resolve_node n2p pre pats ovr n = precedence_chain ovr pre n2p pats n"
  by (auto simp: resolve_node_def precedence_chain_def pattern_match_find Let_def
           split: option.splits list.splits)

lemma well_keyed_lookup:
  "well_keyed plugins \<Longrightarrow> (k, g) \<in> set plugins \<Longrightarrow>
   map_of plugins k = Some g \<and> group_id g = k"
  by (auto simp: well_keyed_def)

lemma resolve_dependencies_output:
  assumes run: "resolve_dependencies wn bn bp n2p pm pre pats ovr = (plugin_list, unresolved)"
  shows "set unresolved =
           {n \<in> fset wn. \<not> is_builtin bn bp n \<and> resolve_node n2p pre pats ovr n = None}"
    and "\<And>e. e \<in> set plugin_list \<Longrightarrow> set (out_nodes e) =
           {n \<in> fset wn. \<not> is_builtin bn bp n \<and> resolve_node n2p pre pats ovr n = Some (out_id e)}"
    and "\<And>n pid. n |\<in>| wn \<Longrightarrow> \<not> is_builtin bn bp n \<Longrightarrow>
           resolve_node n2p pre pats ovr n = Some pid \<Longrightarrow> pid \<in> out_id ` set plugin_list"
    and "distinct (map out_id plugin_list)"
proof -
  obtain plugins' unresolved' where
    loop: "resolve_loop bn bp n2p pm pre pats ovr (sorted_list_of_fset wn) ([], {||})
             = (plugins', unresolved')"
    by (cases "resolve_loop bn bp n2p pm pre pats ovr (sorted_list_of_fset wn) ([], {||})")
  from run loop have
    pl: "plugin_list = map (\<lambda>item. group_entry (snd item)) (sort_key fst plugins')" and
    un: "unresolved = sorted_list_of_fset unresolved'"
    by (simp_all add: resolve_dependencies_def)
  have "well_keyed []" by (simp add: well_keyed_def)
  with resolve_loop_inv [OF loop] have
    wk: "well_keyed plugins'" and
    un': "fset unresolved' =
           {n \<in> fset wn. \<not> is_builtin bn bp n \<and> resolve_node n2p pre pats ovr n = None}" and
    no: "\<And>q. nodes_in plugins' q =
           {n \<in> fset wn. \<not> is_builtin bn bp n \<and> resolve_node n2p pre pats ovr n = Some q}"
    by (simp_all add: nodes_in_def)
  show "set unresolved =
           {n \<in> fset wn. \<not> is_builtin bn bp n \<and> resolve_node n2p pre pats ovr n = None}"
    using un un' by simp
  show "set (out_nodes e) =
           {n \<in> fset wn. \<not> is_builtin bn bp n \<and> resolve_node n2p pre pats ovr n = Some (out_id e)}"
    if "e \<in> set plugin_list" for e
  proof -
    from that pl obtain k g where kg: "(k, g) \<in> set plugins'" "e = group_entry g"
      by auto
    from well_keyed_lookup [OF wk kg(1)] have "map_of plugins' k = Some g" "group_id g = k"
      by simp_all
    then have "nodes_in plugins' (out_id e) = set (out_nodes e)"
      by (simp add: nodes_in_def kg(2) group_entry_def)
    with no [of "out_id e"] show ?thesis by simp
  qed
  show "pid \<in> out_id ` set plugin_list"
    if "n |\<in>| wn" "\<not> is_builtin bn bp n" "resolve_node n2p pre pats ovr n = Some pid" for n pid
  proof -
    from that no [of pid] have "n \<in> nodes_in plugins' pid" by simp
    then obtain g where g: "map_of plugins' pid = Some g"
      by (auto simp: nodes_in_def split: option.splits)
    then have in_set: "(pid, g) \<in> set plugins'" by (rule map_of_SomeD)
    with well_keyed_lookup [OF wk in_set] have "group_id g = pid" by simp
    then have "out_id (group_entry g) = pid" by (simp add: group_entry_def)
    moreover have "group_entry g \<in> set plugin_list"
      using in_set by (force simp: pl)
    ultimately show ?thesis by blast
  qed
  have "map out_id plugin_list = map fst (sort_key fst plugins')"
  proof -
    have "\<forall>item\<in>set (sort_key fst plugins'). out_id (group_entry (snd item)) = fst item"
      using wk by (auto simp: well_keyed_def group_entry_def)
    then show ?thesis by (simp add: pl)
  qed
  moreover have "distinct (map fst (sort_key fst plugins')) = distinct (map fst plugins')"
    by (induction plugins') (simp_all add: distinct_insort_key)
  ultimately show "distinct (map out_id plugin_list)"
    using wk by (simp add: well_keyed_def)
qed


lemma groups_of_single:
  assumes "distinct (map out_id l)"
    and "\<forall>e\<in>set l. (n \<in> set (out_nodes e)) = (out_id e = pid)"
    and "pid \<in> out_id ` set l"
  shows "groups_of l n = [pid]"
  using assms
proof (induction l)
  case Nil
  then show ?case by simp
next
  case (Cons e l)
  show ?case
  proof (cases "out_id e = pid")
    case True
    have "\<forall>e'\<in>set l. n \<notin> set (out_nodes e')"
    proof
      fix e' assume e': "e' \<in> set l"
      with Cons.prems(1) have "out_id e' \<noteq> out_id e" by (auto simp: image_iff)
      with True have "out_id e' \<noteq> pid" by simp
      moreover from e' Cons.prems(2) have "(n \<in> set (out_nodes e')) = (out_id e' = pid)"
        by simp
      ultimately show "n \<notin> set (out_nodes e')" by simp
    qed
    then have "filter (\<lambda>e. n \<in> set (out_nodes e)) l = []" by (simp add: filter_empty_conv)
    with True Cons.prems show ?thesis by (simp add: groups_of_def)
  next
    case False
    with Cons.prems have "groups_of l n = [pid]" by (intro Cons.IH) auto
    with False Cons.prems show ?thesis by (simp add: groups_of_def)
  qed
qed

lemma groups_of_none: "\<forall>e\<in>set l. n \<notin> set (out_nodes e) \<Longrightarrow> groups_of l n = []"
  by (simp add: groups_of_def filter_empty_conv)

text \<open>
  Claim C2. For every workflow node name that is not built in, \<open>resolve_dependencies\<close>
  assigns the plugin id by the fixed precedence chain: the manual override first, then the
  preemption map, then the first id of the node's provider list, then the first declared
  pattern that matches. The node is listed by exactly the plugin group of that id, or is
  unresolved when the chain gives none. So whenever the node has a manual override, the
  group that lists it is the override's, whatever the preemption map, the provider list
  and the patterns say.
\<close>

theorem resolve_dependencies_precedence:
  assumes "resolve_dependencies wn bn bp n2p pm pre pats ovr = (plugin_list, unresolved)"
    and "name |\<in>| wn"
    and "\<not> is_builtin bn bp name"
  shows "groups_of plugin_list name =
           (case precedence_chain ovr pre n2p pats name of Some pid \<Rightarrow> [pid] | None \<Rightarrow> [])
       \<and> (name \<in> set unresolved) = (precedence_chain ovr pre n2p pats name = None)
       \<and> (\<forall>forced. ovr name = Some forced \<longrightarrow>
             groups_of plugin_list name = [forced] \<and> name \<notin> set unresolved)"
proof -
  note out = resolve_dependencies_output [OF assms(1)]
  have un: "(name \<in> set unresolved) = (precedence_chain ovr pre n2p pats name = None)"
    using out(1) assms(2,3) by (simp add: resolve_node_chain)
  have groups: "groups_of plugin_list name =
           (case precedence_chain ovr pre n2p pats name of Some pid \<Rightarrow> [pid] | None \<Rightarrow> [])"
  proof (cases "precedence_chain ovr pre n2p pats name")
    case None
    then have "\<forall>e\<in>set plugin_list. name \<notin> set (out_nodes e)"
      using out(2) by (simp add: resolve_node_chain)
    with None show ?thesis by (simp add: groups_of_none)
  next
    case (Some pid)
    then have "\<forall>e\<in>set plugin_list. (name \<in> set (out_nodes e)) = (out_id e = pid)"
      using out(2) assms(2,3) by (auto simp: resolve_node_chain)
    moreover have "pid \<in> out_id ` set plugin_list"
      using out(3) [OF assms(2,3)] Some by (simp add: resolve_node_chain)
    ultimately have "groups_of plugin_list name = [pid]"
      using out(4) by (intro groups_of_single) auto
    with Some show ?thesis by simp
  qed
  have "groups_of plugin_list name = [forced] \<and> name \<notin> set unresolved"
    if "ovr name = Some forced" for forced
  proof -
    from that have "precedence_chain ovr pre n2p pats name = Some forced"
      by (simp add: precedence_chain_def)
    with un groups show ?thesis by simp
  qed
  with un groups show ?thesis by blast
qed

theorem resolve_dependencies_precedence_witness:
  "resolve_dependencies (fset_of_list [''Loader'', ''Mixer'', ''Sampler'']) {} []
     [''Mixer'' \<mapsto> [''listed-first'', ''listed-second''], ''Loader'' \<mapsto> [''listed-first'']]
     [''forced'' \<mapsto> [(''title'', JStr ''Forced'')]]
     [''Mixer'' \<mapsto> ''preempting'']
     [(contains ''ix'', ''by-pattern'')]
     [''Mixer'' \<mapsto> ''forced'']
   = ([\<lparr>out_id = ''forced'', out_nodes = [''Mixer''],
        out_metadata = Some [(''title'', JStr ''Forced'')]\<rparr>,
       \<lparr>out_id = ''listed-first'', out_nodes = [''Loader''], out_metadata = None\<rparr>],
      [''Sampler''])
   \<and> ''Mixer'' |\<in>| fset_of_list [''Loader'', ''Mixer'', ''Sampler'']
   \<and> \<not> is_builtin {} [] ''Mixer''
   \<and> groups_of [\<lparr>out_id = ''forced'', out_nodes = [''Mixer''],
        out_metadata = Some [(''title'', JStr ''Forced'')]\<rparr>,
       \<lparr>out_id = ''listed-first'', out_nodes = [''Loader''], out_metadata = None\<rparr>] ''Mixer''
       = [''forced'']
   \<and> ''Mixer'' \<notin> set [''Sampler'']"
  (is "?run = (?plugins, ?unresolved) \<and> ?mem \<and> ?nb \<and> ?groups \<and> ?un")
proof -
  have run: "?run = (?plugins, ?unresolved)"
    by (simp add: resolver_eval)
  have mem: ?mem by simp
  have nb: ?nb by (simp add: is_builtin_def)
  from resolve_dependencies_precedence [OF run mem nb] have "?groups \<and> ?un"
    by (simp add: precedence_chain_def)
  with run mem nb show ?thesis by blast
qed

text \<open>
  Claim C9. A workflow node name that is in the built-in node set, or that a built-in
  pattern matches, is listed by no plugin group of the output of
  \<open>resolve_dependencies\<close> and is not in its unresolved list.
\<close>

theorem resolve_dependencies_builtin:
  assumes "resolve_dependencies wn bn bp n2p pm pre pats ovr = (plugin_list, unresolved)"
    and "name \<in> bn \<or> list_ex (\<lambda>pat. pat name) bp"
  shows "groups_of plugin_list name = [] \<and> name \<notin> set unresolved
       \<and> (\<forall>e\<in>set plugin_list. name \<notin> set (out_nodes e))"
proof -
  note out = resolve_dependencies_output [OF assms(1)]
  from assms(2) have "is_builtin bn bp name" by (simp add: is_builtin_def)
  then have "\<forall>e\<in>set plugin_list. name \<notin> set (out_nodes e)" "name \<notin> set unresolved"
    using out(1,2) by auto
  then show ?thesis by (simp add: groups_of_none)
qed

theorem resolve_dependencies_builtin_witness:
  "resolve_dependencies (fset_of_list [''A'', ''B'', ''C'', ''PrimitiveInt'']) {''C''}
     [startswith ''Primitive'']
     [''A'' \<mapsto> [''P1''], ''C'' \<mapsto> [''P3'']]
     [''P1'' \<mapsto> [(''url'', JStr ''https://x/p1'')]]
     Map.empty
     [(startswith ''B'', ''P2''), (startswith ''Prim'', ''P4'')]
     [''PrimitiveInt'' \<mapsto> ''P5'']
   = ([\<lparr>out_id = ''P1'', out_nodes = [''A''],
        out_metadata = Some [(''url'', JStr ''https://x/p1'')]\<rparr>,
       \<lparr>out_id = ''P2'', out_nodes = [''B''], out_metadata = None\<rparr>], [])
   \<and> (''PrimitiveInt'' \<in> {''C''} \<or> list_ex (\<lambda>pat. pat ''PrimitiveInt'') [startswith ''Primitive''])
   \<and> groups_of [\<lparr>out_id = ''P1'', out_nodes = [''A''],
        out_metadata = Some [(''url'', JStr ''https://x/p1'')]\<rparr>,
       \<lparr>out_id = ''P2'', out_nodes = [''B''], out_metadata = None\<rparr>] ''PrimitiveInt'' = []
   \<and> ''PrimitiveInt'' \<notin> set ([] :: string list)"
  (is "?run = (?plugins, ?unresolved) \<and> ?builtin \<and> ?groups \<and> ?un")
proof -
  have run: "?run = (?plugins, ?unresolved)"
    by (simp add: resolver_eval)
  have builtin: ?builtin by (simp add: startswith_def)
  from resolve_dependencies_builtin [OF run builtin] have "?groups \<and> ?un"
    by simp
  with run builtin show ?thesis by blast
qed

section \<open>Verification: the catalog builder\<close>

lemma map_of_fold_dict_set:
  "map_of (fold (\<lambda>kv merged. dict_set (fst kv) (snd kv) merged) c ex) = map_of ex ++ map_of (rev c)"
proof (induction c arbitrary: ex)
  case Nil
  then show ?case by simp
next
  case (Cons x c)
  have "map_of (fold (\<lambda>kv merged. dict_set (fst kv) (snd kv) merged) (x # c) ex)
      = map_of (dict_set (fst x) (snd x) ex) ++ map_of (rev c)"
    by (simp add: Cons.IH)
  also have "\<dots> = (map_of ex)(fst x \<mapsto> snd x) ++ map_of (rev c)"
    by (simp add: map_of_dict_set)
  also have "\<dots> = map_of ex ++ map_of (rev (x # c))"
    by (cases x) (simp add: map_add_assoc [symmetric] map_add_upd)
  finally show ?case .
qed

lemma map_of_merge_metadata:
  "map_of (merge_metadata ex combined) = map_of ex ++ non_null_items combined"
  by (simp add: merge_metadata_def non_null_items_def map_of_fold_dict_set)

lemma providers_add_provider:
  "set (providers (add_provider cid node_name m) n) =
     set (providers m n) \<union> (if n = py_strip node_name \<and> n \<noteq> [] then {cid} else {})"
  by (auto simp: add_provider_def providers_def Let_def)

lemma providers_fold_add:
  "set (providers (fold (add_provider cid) ns m) n) =
     set (providers m n) \<union> (if n \<in> py_strip ` set ns \<and> n \<noteq> [] then {cid} else {})"
proof (induction ns arbitrary: m)
  case Nil
  then show ?case by simp
next
  case (Cons a ns)
  show ?case
    by (auto simp: Cons.IH providers_add_provider)
qed

lemma node_map_step_providers:
  "set (providers (node_to_plugins (node_map_step compile cat item st)) n) =
     set (providers (node_to_plugins st) n) \<union>
       (if n \<in> stripped_nodes (snd item) then {canonical_id cat (fst item)} else {})"
  by (simp add: node_map_step_def Let_def case_prod_beta providers_fold_add stripped_nodes_def)

lemma node_map_step_metadata:
  "plugin_metadata (node_map_step compile cat item st) =
     (plugin_metadata st)(canonical_id cat (fst item) \<mapsto>
        (case plugin_metadata st (canonical_id cat (fst item)) of
           Some existing_meta \<Rightarrow>
             if existing_meta \<noteq> []
             then merge_metadata existing_meta
                    (combined_metadata cat (fst item) (snd (decode_value (snd item))))
             else combined_metadata cat (fst item) (snd (decode_value (snd item)))
         | None \<Rightarrow> combined_metadata cat (fst item) (snd (decode_value (snd item)))))"
  by (simp add: node_map_step_def Let_def case_prod_beta)

lemma load_snoc:
  "load_extension_node_map compile (raw @ [item]) cat =
     node_map_step compile cat item (load_extension_node_map compile raw cat)"
  by (simp add: load_extension_node_map_def)

lemma load_providers:
  "set (providers (node_to_plugins (load_extension_node_map compile raw cat)) n) =
     {canonical_id cat (fst item) | item. item \<in> set raw \<and> n \<in> stripped_nodes (snd item)}"
proof (induction raw rule: rev_induct)
  case Nil
  then show ?case by (simp add: load_extension_node_map_def providers_def)
next
  case (snoc item raw)
  show ?case
    unfolding load_snoc node_map_step_providers snoc.IH by (cases item) force
qed


lemmas catalog_eval =
  load_extension_node_map_def node_map_step_def decode_value_def canonical_id_def
  combined_metadata_def dict_setdefault_def dict_get_def merge_metadata_def json_strings_def
  add_provider_def providers_def Let_def comfy_repository_def py_strip_def is_space_def
  stripped_nodes_def non_null_items_def

text \<open>
  Claim C6, as the code has it. The plugin ids that \<open>load_extension_node_map\<close> lists for
  a node name are the canonical ids of the raw entries that carry the name, so the node
  names of a canonical id are the union over all raw ids that canonicalize to it. When a
  raw entry arrives whose canonical id already has non-empty merged metadata, the new
  merged metadata is the earlier one overridden by every item of the later entry's
  metadata whose value is not \<open>None\<close>: such a value replaces the earlier value of its key
  whether or not the key was set, and a key that the later entry lacks, or carries as
  \<open>None\<close>, keeps its earlier value.
\<close>

theorem load_extension_node_map_merge:
  "(\<forall>n cid. cid \<in> set (providers (node_to_plugins (load_extension_node_map compile raw cat)) n)
        \<longleftrightarrow> (\<exists>item\<in>set raw. canonical_id cat (fst item) = cid \<and> n \<in> stripped_nodes (snd item)))
   \<and> (\<forall>existing_meta.
        plugin_metadata (load_extension_node_map compile raw cat) (canonical_id cat r)
          = Some existing_meta \<and> existing_meta \<noteq> [] \<longrightarrow>
        (\<exists>merged.
           plugin_metadata (load_extension_node_map compile (raw @ [(r, v)]) cat)
             (canonical_id cat r) = Some merged
           \<and> map_of merged =
               map_of existing_meta ++
               non_null_items (combined_metadata cat r (snd (decode_value v)))))"
proof -
  have "cid \<in> set (providers (node_to_plugins (load_extension_node_map compile raw cat)) n)
        \<longleftrightarrow> (\<exists>item\<in>set raw. canonical_id cat (fst item) = cid \<and> n \<in> stripped_nodes (snd item))"
    for n cid
    unfolding load_providers by blast
  moreover have "\<exists>merged.
           plugin_metadata (load_extension_node_map compile (raw @ [(r, v)]) cat)
             (canonical_id cat r) = Some merged
           \<and> map_of merged =
               map_of existing_meta ++
               non_null_items (combined_metadata cat r (snd (decode_value v)))"
    if "plugin_metadata (load_extension_node_map compile raw cat) (canonical_id cat r)
          = Some existing_meta \<and> existing_meta \<noteq> []" for existing_meta
    using that by (simp add: load_snoc node_map_step_metadata map_of_merge_metadata)
  ultimately show ?thesis by blast
qed

theorem load_extension_node_map_merge_witness:
  "plugin_metadata
     (load_extension_node_map Map.empty
        [(''first-id'', JList [JList [JStr ''N1''], JObj [(''title'', JStr ''First''), (''note'', JStr ''kept'')]])]
        [''first-id'' \<mapsto> [(''reference'', JStr ''https://example.com/canon'')],
         ''second-id'' \<mapsto> [(''reference'', JStr ''https://example.com/canon'')]])
     (canonical_id [''first-id'' \<mapsto> [(''reference'', JStr ''https://example.com/canon'')],
         ''second-id'' \<mapsto> [(''reference'', JStr ''https://example.com/canon'')]] ''second-id'')
   = Some [(''title'', JStr ''First''), (''note'', JStr ''kept''),
           (''reference'', JStr ''https://example.com/canon''),
           (''author'', JNull), (''install_type'', JNull)]
   \<and> [(''title'', JStr ''First''), (''note'', JStr ''kept''),
           (''reference'', JStr ''https://example.com/canon''),
           (''author'', JNull), (''install_type'', JNull)] \<noteq> []
   \<and> (\<exists>merged.
        plugin_metadata
          (load_extension_node_map Map.empty
             ([(''first-id'', JList [JList [JStr ''N1''], JObj [(''title'', JStr ''First''), (''note'', JStr ''kept'')]])]
              @ [(''second-id'', JList [JList [JStr '' N2 ''], JObj [(''title'', JStr ''Second''), (''note'', JNull)]])])
             [''first-id'' \<mapsto> [(''reference'', JStr ''https://example.com/canon'')],
              ''second-id'' \<mapsto> [(''reference'', JStr ''https://example.com/canon'')]])
          ''https://example.com/canon'' = Some merged
        \<and> map_of merged ''title'' = Some (JStr ''Second'')
        \<and> map_of merged ''note'' = Some (JStr ''kept'')
        \<and> map_of merged ''author'' = Some JNull)
   \<and> (''https://example.com/canon''
        \<in> set (providers (node_to_plugins
             (load_extension_node_map Map.empty
                [(''first-id'', JList [JList [JStr ''N1''], JObj [(''title'', JStr ''First''), (''note'', JStr ''kept'')]]),
                 (''second-id'', JList [JList [JStr '' N2 ''], JObj [(''title'', JStr ''Second''), (''note'', JNull)]])]
                [''first-id'' \<mapsto> [(''reference'', JStr ''https://example.com/canon'')],
                 ''second-id'' \<mapsto> [(''reference'', JStr ''https://example.com/canon'')]])) ''N2''))"
  (is "?before = Some ?existing \<and> ?nonempty \<and> ?after \<and> ?listed")
proof -
  let ?cat = "[''first-id'' \<mapsto> [(''reference'', JStr ''https://example.com/canon'')],
         ''second-id'' \<mapsto> [(''reference'', JStr ''https://example.com/canon'')]]"
  let ?raw = "[(''first-id'', JList [JList [JStr ''N1''], JObj [(''title'', JStr ''First''), (''note'', JStr ''kept'')]])]"
  let ?v = "JList [JList [JStr '' N2 ''], JObj [(''title'', JStr ''Second''), (''note'', JNull)]]"
  have before: "?before = Some ?existing" by (simp add: catalog_eval)
  have nonempty: ?nonempty by simp
  have cid: "canonical_id ?cat ''second-id'' = ''https://example.com/canon''"
    by (simp add: canonical_id_def)
  from load_extension_node_map_merge [of Map.empty ?raw ?cat "''second-id''" ?v]
    before nonempty
  obtain merged where
    "plugin_metadata (load_extension_node_map Map.empty (?raw @ [(''second-id'', ?v)]) ?cat)
       (canonical_id ?cat ''second-id'') = Some merged"
    "map_of merged = map_of ?existing ++
       non_null_items (combined_metadata ?cat ''second-id'' (snd (decode_value ?v)))"
    by blast
  then have after: ?after
    by (simp add: cid combined_metadata_def decode_value_def dict_setdefault_def dict_get_def
          non_null_items_def Let_def)
  from load_extension_node_map_merge
         [of Map.empty "?raw @ [(''second-id'', ?v)]" ?cat "''second-id''" ?v]
  have listed: ?listed
    by (simp add: cid canonical_id_def stripped_nodes_def decode_value_def json_strings_def
          py_strip_def is_space_def)
  from before nonempty after listed show ?thesis by blast
qed

text \<open>
  The claim as the spec words it (a later value overrides only keys that are still unset,
  and already-set keys stay) fails when the later entry sets a key that the earlier entry
  set as well: the earlier title is replaced.
\<close>

theorem load_extension_node_map_merge_counterexample:
  "plugin_metadata
     (load_extension_node_map Map.empty
        [(''first-id'', JList [JList [JStr ''N1''], JObj [(''title'', JStr ''First'')]])]
        [''first-id'' \<mapsto> [(''reference'', JStr ''https://example.com/canon'')],
         ''second-id'' \<mapsto> [(''reference'', JStr ''https://example.com/canon'')]])
     ''https://example.com/canon''
   = Some [(''title'', JStr ''First''), (''reference'', JStr ''https://example.com/canon''),
           (''author'', JNull), (''install_type'', JNull)]
   \<and> plugin_metadata
     (load_extension_node_map Map.empty
        [(''first-id'', JList [JList [JStr ''N1''], JObj [(''title'', JStr ''First'')]]),
         (''second-id'', JList [JList [JStr ''N2''], JObj [(''title'', JStr ''Second'')]])]
        [''first-id'' \<mapsto> [(''reference'', JStr ''https://example.com/canon'')],
         ''second-id'' \<mapsto> [(''reference'', JStr ''https://example.com/canon'')]])
     ''https://example.com/canon''
   = Some [(''title'', JStr ''Second''), (''reference'', JStr ''https://example.com/canon''),
           (''author'', JNull), (''install_type'', JNull)]"
  by (simp add: catalog_eval)

section \<open>Verification: loading the node map\<close>

lemma fallback_unbound:
  "map_of (main_scope script_dir comfy_root manager_root fallback_root) ''fallback'' = None"
  by (cases fallback_root) (simp_all add: main_scope_def module_names_def)

lemma lookup_fallback:
  "lookup_name (main_scope script_dir comfy_root manager_root fallback_root) ''fallback''
     = Inl (NameError ''fallback'')"
  by (simp add: lookup_name_def fallback_unbound)

text \<open>
  Claim C5, as the code has it. Without \<open>--node-map\<close>, the default branch never
  completes normally: it neither loads a map nor reports the documented fatal error, for
  every file system and whatever the preferred file holds. When the preferred file is
  absent, or exists and is read and parsed, evaluation reaches the name \<open>fallback\<close>,
  which nothing binds, and ends with \<open>NameError\<close>. When the preferred file exists but
  cannot be read or parsed, that exception ends the branch before the name is read.
\<close>

theorem load_node_map_data_default_branch:
  "(\<exists>e. load_node_map_data loads f
            (main_scope script_dir comfy_root manager_root fallback_root) None manager_root
          = Inl e)
   \<and> (\<not> path_exists f (node_map_file manager_root) \<longrightarrow>
        load_node_map_data loads f
          (main_scope script_dir comfy_root manager_root fallback_root) None manager_root
        = Inl (NameError ''fallback''))
   \<and> (\<forall>d. path_exists f (node_map_file manager_root)
           \<and> read_json loads f (node_map_file manager_root) = Inr d \<longrightarrow>
        load_node_map_data loads f
          (main_scope script_dir comfy_root manager_root fallback_root) None manager_root
        = Inl (NameError ''fallback''))
   \<and> (\<forall>e. path_exists f (node_map_file manager_root)
           \<and> read_json loads f (node_map_file manager_root) = Inl e \<longrightarrow>
        load_node_map_data loads f
          (main_scope script_dir comfy_root manager_root fallback_root) None manager_root
        = Inl e)"
proof -
  let ?run = "load_node_map_data loads f
            (main_scope script_dir comfy_root manager_root fallback_root) None manager_root"
  let ?preferred = "node_map_file manager_root"
  have absent: "?run = Inl (NameError ''fallback'')" if "\<not> path_exists f ?preferred"
    using that by (simp add: load_node_map_data_def Let_def lookup_fallback bindE_def)
  have parsed: "?run = Inl (NameError ''fallback'')"
    if "path_exists f ?preferred \<and> read_json loads f ?preferred = Inr d" for d
    using that by (simp add: load_node_map_data_def Let_def lookup_fallback bindE_def)
  have raised: "?run = Inl e"
    if "path_exists f ?preferred \<and> read_json loads f ?preferred = Inl e" for e
    using that by (simp add: load_node_map_data_def Let_def bindE_def)
  have "\<exists>e. ?run = Inl e"
  proof (cases "path_exists f ?preferred")
    case False
    with absent show ?thesis by blast
  next
    case True
    then show ?thesis
      using parsed raised by (cases "read_json loads f ?preferred") blast+
  qed
  with absent parsed raised show ?thesis by blast
qed

theorem load_node_map_data_default_branch_witness:
  \<open>\<not> path_exists [([''manager''], Dir)] (node_map_file [''manager''])
   \<and> load_node_map_data (json_loads example_env) [([''manager''], Dir)]
        (main_scope [''scripts''] [''comfy''] [''manager''] None) None [''manager'']
      = Inl (NameError ''fallback'')
   \<and> path_exists
        [([''manager''], Dir), ([''manager'', ''node_db''], Dir),
         ([''manager'', ''node_db'', ''dev''], Dir),
         ([''manager'', ''node_db'', ''dev'', ''extension-node-map.json''],
          File example_manifest_text)]
        (node_map_file [''manager''])
   \<and> read_json (json_loads example_env)
        [([''manager''], Dir), ([''manager'', ''node_db''], Dir),
         ([''manager'', ''node_db'', ''dev''], Dir),
         ([''manager'', ''node_db'', ''dev'', ''extension-node-map.json''],
          File example_manifest_text)]
        (node_map_file [''manager'']) = Inr example_manifest
   \<and> load_node_map_data (json_loads example_env)
        [([''manager''], Dir), ([''manager'', ''node_db''], Dir),
         ([''manager'', ''node_db'', ''dev''], Dir),
         ([''manager'', ''node_db'', ''dev'', ''extension-node-map.json''],
          File example_manifest_text)]
        (main_scope [''scripts''] [''comfy''] [''manager''] (Some [''manager-download'']))
        None [''manager'']
      = Inl (NameError ''fallback'')\<close>
  (is "?absent \<and> ?run1 \<and> ?present \<and> ?parsed \<and> ?run2")
proof -
  have absent: ?absent by code_simp
  have present: ?present by code_simp
  have parsed: ?parsed by code_simp
  from load_node_map_data_default_branch
         [where f = "[([''manager''], Dir)]" and manager_root = "[''manager'']"
            and loads = "json_loads example_env" and script_dir = "[''scripts'']"
            and comfy_root = "[''comfy'']" and fallback_root = None,
          THEN conjunct2, THEN conjunct1, rule_format, OF absent]
  have run1: ?run1 .
  from load_node_map_data_default_branch
         [where manager_root = "[''manager'']"
            and loads = "json_loads example_env" and script_dir = "[''scripts'']"
            and comfy_root = "[''comfy'']" and fallback_root = "Some [''manager-download'']",
          THEN conjunct2, THEN conjunct2, THEN conjunct1, rule_format,
          OF conjI [OF present parsed]]
  have run2: ?run2 .
  from absent run1 present parsed run2 show ?thesis by (intro conjI)
qed

text \<open>
  The claim as the spec words it (every such invocation reaches the undefined name) fails
  when the preferred file exists but is not a JSON document, here an empty file:
  \<open>json.loads\<close> raises before the name is read.
\<close>

theorem load_node_map_data_default_branch_counterexample:
  "load_node_map_data (json_loads example_env)
     [([''manager''], Dir), ([''manager'', ''node_db''], Dir),
      ([''manager'', ''node_db'', ''dev''], Dir),
      ([''manager'', ''node_db'', ''dev'', ''extension-node-map.json''], File [])]
     (main_scope [''scripts''] [''comfy''] [''manager''] None) None [''manager'']
   = Inl JSONDecodeError
   \<and> Inl JSONDecodeError \<noteq> (Inl (NameError ''fallback'') :: py_error + load_outcome)"
  by code_simp

section \<open>Verification: planning\<close>

text \<open>Unfolding the planning functions on a concrete manifest.\<close>

lemmas plan_eval =
  plan_plugins_def dict_get_def bindE_def plan_entry_def Let_def py_str_def py_strip_def
  is_space_def entry_nodes_def resolve_repo_def metadata_keys_def metadata_candidate_def
  normalize_git_url_def startswith_def py_lower_def lower_char_def before_first_def
  derive_slug_def url_slug_part_def py_rstrip_chars_def endswith_def after_last_def
  slugify_def slug_char_def py_strip_chars_def ensure_unique_slug_def
  ensure_loop.simps slug_candidate_def str_of_nat.simps entry_id_def dict_entries_def
  metadata_first_url_def plan_slugs_def

subsection \<open>The repository URL of a plan\<close>

text \<open>
  \<open>normalize_git_url\<close> never returns the empty string, so the tests \<open>if repo_url:\<close> of
  \<open>plan_plugins\<close> are tests for \<open>None\<close>, as the model has them.
\<close>

lemma normalize_git_url_nonempty: "normalize_git_url c = Some u \<Longrightarrow> u \<noteq> []"
  by (auto simp: normalize_git_url_def Let_def startswith_def py_lower_def before_first_def
           split: option.splits if_splits)









subsection \<open>Slugs\<close>

lemma ensure_loop_spec:
  "ensure_loop s ex idx = (r, ex') \<Longrightarrow>
   \<exists>k\<ge>idx. r = slug_candidate s k \<and> r |\<notin>| ex \<and> ex' = finsert r ex
        \<and> (\<forall>j. idx \<le> j \<and> j < k \<longrightarrow> slug_candidate s j |\<in>| ex)"
proof (induction s ex idx rule: ensure_loop.induct)
  case (1 s existing idx)
  show ?case
  proof (cases "slug_candidate s idx |\<in>| existing")
    case False
    with "1.prems" have "r = slug_candidate s idx" "ex' = finsert r existing"
      by (auto simp: ensure_loop.simps [of s existing idx] Let_def)
    with False show ?thesis by auto
  next
    case True
    with "1.prems" have "ensure_loop s existing (idx + 1) = (r, ex')"
      by (simp add: ensure_loop.simps [of s existing idx] Let_def)
    with "1.IH" True obtain k where k: "k \<ge> idx + 1" "r = slug_candidate s k"
      "r |\<notin>| existing" "ex' = finsert r existing"
      "\<forall>j. idx + 1 \<le> j \<and> j < k \<longrightarrow> slug_candidate s j |\<in>| existing"
      by blast
    have "\<forall>j. idx \<le> j \<and> j < k \<longrightarrow> slug_candidate s j |\<in>| existing"
    proof (intro allI impI)
      fix j assume "idx \<le> j \<and> j < k"
      then show "slug_candidate s j |\<in>| existing"
        using True k(5) by (cases "j = idx") auto
    qed
    with k show ?thesis by (intro exI [of _ k]) auto
  qed
qed

lemma ensure_unique_slug_first_free:
  "ensure_unique_slug s ex = (first_free_slug s (fset ex), finsert (first_free_slug s (fset ex)) ex)"
proof (cases "s |\<in>| ex")
  case False
  then show ?thesis by (simp add: ensure_unique_slug_def first_free_slug_def)
next
  case True
  obtain r ex' where r: "ensure_loop s ex 2 = (r, ex')" by (cases "ensure_loop s ex 2")
  from ensure_loop_spec [OF r] obtain k where k: "k \<ge> 2" "r = slug_candidate s k"
    "r |\<notin>| ex" "ex' = finsert r ex" "\<forall>j. 2 \<le> j \<and> j < k \<longrightarrow> slug_candidate s j |\<in>| ex"
    by blast
  have "(LEAST k. 2 \<le> k \<and> slug_candidate s k \<notin> fset ex) = k"
  proof (rule Least_equality)
    show "2 \<le> k \<and> slug_candidate s k \<notin> fset ex" using k by simp
  next
    fix y assume "2 \<le> y \<and> slug_candidate s y \<notin> fset ex"
    then show "k \<le> y" using k(5) by (meson not_le_imp_less)
  qed
  then show ?thesis
    using True r k by (simp add: ensure_unique_slug_def first_free_slug_def)
qed

lemma first_free_slug_fresh: "finite taken \<Longrightarrow> first_free_slug s taken \<notin> taken"
proof -
  assume "finite taken"
  then obtain ex where ex: "taken = fset ex"
    by (metis finite_list fset_of_list.rep_eq)
  obtain r ex' where r: "ensure_unique_slug s ex = (r, ex')" by (cases "ensure_unique_slug s ex")
  show ?thesis
  proof (cases "s |\<in>| ex")
    case False
    then show ?thesis by (simp add: first_free_slug_def ex)
  next
    case True
    obtain r ex' where r: "ensure_loop s ex 2 = (r, ex')" by (cases "ensure_loop s ex 2")
    from ensure_loop_spec [OF r] have "r |\<notin>| ex" by blast
    moreover have "r = first_free_slug s (fset ex)"
      using ensure_unique_slug_first_free [of s ex] True r by (simp add: ensure_unique_slug_def)
    ultimately show ?thesis by (simp add: ex)
  qed
qed

lemma plan_entry_slug:
  assumes "plan_entry entry used = Inr (p, used')"
  shows "(case repo_url p of
            None \<Rightarrow> slug p = None \<and> used' = used
          | Some u \<Rightarrow> slug p = Some (first_free_slug (slugify (url_slug_part u)) (fset used))
                       \<and> used' = finsert (first_free_slug (slugify (url_slug_part u)) (fset used)) used)"
  using assms
  by (auto simp: plan_entry_def bindE_def Let_def derive_slug_def ensure_unique_slug_first_free
           split: sum.splits prod.splits option.splits)

lemma plan_loop_slug_at:
  "plan_loop es used = Inr plans \<Longrightarrow> plans = ps1 @ p # ps2 \<Longrightarrow> repo_url p = Some u \<Longrightarrow>
   slug p = Some (first_free_slug (slugify (url_slug_part u)) (fset used \<union> set (plan_slugs ps1)))"
proof (induction es arbitrary: used plans ps1)
  case Nil
  then show ?case by simp
next
  case (Cons e es)
  show ?case
  proof (cases e)
    case (JObj entry)
    from Cons.prems(1) JObj obtain q used' qs where
      pe: "plan_entry entry used = Inr (q, used')" and
      pl: "plan_loop es used' = Inr qs" and
      plans: "plans = q # qs"
      by (auto simp: bindE_def split: sum.splits)
    show ?thesis
    proof (cases ps1)
      case Nil
      with Cons.prems plans have "p = q" by simp
      with plan_entry_slug [OF pe] Cons.prems(3) Nil show ?thesis
        by (simp add: plan_slugs_def)
    next
      case (Cons q' ps1')
      with Cons.prems plans have q': "q' = q" and qs: "qs = ps1' @ p # ps2" by simp_all
      have used': "fset used' \<union> set (plan_slugs ps1') = fset used \<union> set (plan_slugs ps1)"
        using plan_entry_slug [OF pe]
        by (auto simp: Cons q' plan_slugs_def split: option.splits)
      from Cons.IH [OF pl qs \<open>repo_url p = Some u\<close>] show ?thesis
        by (simp add: used')
    qed
  qed (use Cons in auto)
qed

lemma plan_loop_slug_some:
  "plan_loop es used = Inr plans \<Longrightarrow> p \<in> set plans \<Longrightarrow> (slug p = None) = (repo_url p = None)"
proof (induction es arbitrary: used plans)
  case Nil
  then show ?case by simp
next
  case (Cons e es)
  show ?case
  proof (cases e)
    case (JObj entry)
    from Cons.prems(1) JObj obtain q used' qs where
      pe: "plan_entry entry used = Inr (q, used')" and
      pl: "plan_loop es used' = Inr qs" and
      plans: "plans = q # qs"
      by (auto simp: bindE_def split: sum.splits)
    from plan_entry_slug [OF pe] have "(slug q = None) = (repo_url q = None)"
      by (auto split: option.splits)
    with Cons.IH [OF pl] Cons.prems(2) plans show ?thesis by auto
  qed (use Cons in auto)
qed

lemma plan_loop_distinct:
  "plan_loop es used = Inr plans \<Longrightarrow>
   distinct (plan_slugs plans) \<and> fset used \<inter> set (plan_slugs plans) = {}"
proof (induction es arbitrary: used plans)
  case Nil
  then show ?case by (simp add: plan_slugs_def)
next
  case (Cons e es)
  show ?case
  proof (cases e)
    case (JObj entry)
    from Cons.prems(1) JObj obtain q used' qs where
      pe: "plan_entry entry used = Inr (q, used')" and
      pl: "plan_loop es used' = Inr qs" and
      plans: "plans = q # qs"
      by (auto simp: bindE_def split: sum.splits)
    note ih = Cons.IH [OF pl]
    show ?thesis
    proof (cases "repo_url q")
      case None
      with plan_entry_slug [OF pe] ih show ?thesis
        by (simp add: plans plan_slugs_def)
    next
      case (Some u)
      let ?r = "first_free_slug (slugify (url_slug_part u)) (fset used)"
      from plan_entry_slug [OF pe] Some have q: "slug q = Some ?r" "used' = finsert ?r used"
        by simp_all
      have "?r \<notin> fset used" by (rule first_free_slug_fresh) simp
      with ih q show ?thesis
        by (auto simp: plans plan_slugs_def)
    qed
  qed (use Cons in auto)
qed

lemma slug_candidate_neq_base: "slug_candidate b k \<noteq> b"
  by (simp add: slug_candidate_def)

lemma first_free_slug_second: "first_free_slug b {b} = b @ ''-2''"
proof -
  have "(LEAST k. 2 \<le> k \<and> slug_candidate b k \<notin> {b}) = 2"
    by (rule Least_equality) (simp_all add: slug_candidate_neq_base)
  then show ?thesis
    by (simp add: first_free_slug_def slug_candidate_def str_of_nat.simps)
qed

lemma first_free_slug_third: "first_free_slug b {b, b @ ''-2''} = b @ ''-3''"
proof -
  have two: "slug_candidate b 2 = b @ ''-2''"
    by (simp add: slug_candidate_def str_of_nat.simps)
  have "(LEAST k. 2 \<le> k \<and> slug_candidate b k \<notin> {b, b @ ''-2''}) = 3"
  proof (rule Least_equality)
    show "2 \<le> (3::nat) \<and> slug_candidate b 3 \<notin> {b, b @ ''-2''}"
      by (simp add: slug_candidate_def str_of_nat.simps)
  next
    fix y :: nat
    assume y: "2 \<le> y \<and> slug_candidate b y \<notin> {b, b @ ''-2''}"
    then have "y \<noteq> 2" using two by auto
    with y show "3 \<le> y" by simp
  qed
  then show ?thesis
    by (simp add: first_free_slug_def slug_candidate_def str_of_nat.simps)
qed

text \<open>
  Claim C7, as the code has it. Within one run of \<open>plan_plugins\<close>, every plan that has
  a repository URL receives a slug, and the assigned slugs are pairwise distinct. A plan
  receives the base slug of its URL when no earlier plan of the run holds it; otherwise it
  receives the base slug with \<open>-k\<close> appended, for the least \<open>k\<close> from 2 such that this
  name is held by no earlier plan. So the second plan of a base gets \<open>-2\<close> and the third
  \<open>-3\<close> when these names are free, and a later index when another plan holds them.
\<close>

theorem plan_plugins_slugs:
  assumes "plan_plugins manifest = Inr (plans, unresolved)"
  shows "(\<forall>p\<in>set plans. repo_url p \<noteq> None \<longrightarrow> slug p \<noteq> None)
       \<and> distinct (plan_slugs plans)
       \<and> (\<forall>ps1 p ps2 u. plans = ps1 @ p # ps2 \<and> repo_url p = Some u \<longrightarrow>
            slug p = Some (first_free_slug (slugify (url_slug_part u)) (set (plan_slugs ps1))))
       \<and> first_free_slug b {} = b
       \<and> first_free_slug b {b} = b @ ''-2''
       \<and> first_free_slug b {b, b @ ''-2''} = b @ ''-3''"
proof -
  have slugs: "(\<forall>p\<in>set plans. repo_url p \<noteq> None \<longrightarrow> slug p \<noteq> None)
       \<and> distinct (plan_slugs plans)
       \<and> (\<forall>ps1 p ps2 u. plans = ps1 @ p # ps2 \<and> repo_url p = Some u \<longrightarrow>
            slug p = Some (first_free_slug (slugify (url_slug_part u)) (set (plan_slugs ps1))))"
  proof (cases "\<exists>d es. manifest = JObj d \<and> map_of d ''plugins'' = Some (JList es)")
    case True
    then obtain d es where d: "manifest = JObj d" "map_of d ''plugins'' = Some (JList es)" by blast
    with assms have pl: "plan_loop es {||} = Inr plans"
      by (auto simp: plan_plugins_def bindE_def Let_def split: sum.splits)
    show ?thesis
      using plan_loop_slug_some [OF pl] plan_loop_distinct [OF pl] plan_loop_slug_at [OF pl]
      by auto
  next
    case False
    with assms have "plans = []"
      by (auto simp: plan_plugins_def bindE_def Let_def
               split: sum.splits json.splits option.splits)
    then show ?thesis by (simp add: plan_slugs_def)
  qed
  have "first_free_slug b {} = b" by (simp add: first_free_slug_def)
  with slugs first_free_slug_second [of b] first_free_slug_third [of b] show ?thesis
    by blast
qed

theorem plan_plugins_slugs_witness:
  "plan_plugins (JObj [(''plugins'', JList [
      JObj [(''id'', JStr ''https://a.example/Foo.git'')],
      JObj [(''id'', JStr ''no url'')],
      JObj [(''id'', JStr ''https://b.example/foo/'')],
      JObj [(''id'', JStr ''git@c.example:team/foo'')]])])
   = Inr ([\<lparr>plugin_id = ''https://a.example/Foo.git'', nodes = [],
            repo_url = Some ''https://a.example/Foo.git'', slug = Some ''foo'',
            reason = Some ''plugin_id'', status = Planned, message = None,
            requirements = []\<rparr>,
           \<lparr>plugin_id = ''no url'', nodes = [],
            repo_url = None, slug = None,
            reason = None, status = Planned, message = None,
            requirements = []\<rparr>,
           \<lparr>plugin_id = ''https://b.example/foo/'', nodes = [],
            repo_url = Some ''https://b.example/foo/'', slug = Some ''foo-2'',
            reason = Some ''plugin_id'', status = Planned, message = None,
            requirements = []\<rparr>,
           \<lparr>plugin_id = ''git@c.example:team/foo'', nodes = [],
            repo_url = Some ''git@c.example:team/foo'', slug = Some ''foo-3'',
            reason = Some ''plugin_id'', status = Planned, message = None,
            requirements = []\<rparr>], [])
   \<and> distinct [''foo'', ''foo-2'', ''foo-3'']
   \<and> first_free_slug ''foo'' {''foo'', ''foo-2''} = ''foo-3''"
  (is "?run = Inr (?plans, ?unresolved) \<and> ?d \<and> ?f")
proof -
  have run: "?run = Inr (?plans, ?unresolved)"
    by (simp add: plan_eval)
  from plan_plugins_slugs [OF run, of "''foo''"] have "distinct (plan_slugs ?plans)" and "?f"
    by simp_all
  then show ?thesis using run by (simp add: plan_slugs_def)
qed

text \<open>
  The claim as the spec words it (the second plan of a base always gets \<open>-2\<close>) fails
  when another plan of the run already holds that name: of the plans below, the first and
  the third derive the base \<open>foo\<close>, the second derives \<open>foo-2\<close>, and the third, the
  second one colliding on \<open>foo\<close>, gets \<open>foo-3\<close>.
\<close>

theorem plan_plugins_slugs_counterexample:
  "plan_plugins (JObj [(''plugins'', JList [
      JObj [(''id'', JStr ''https://a.example/foo'')],
      JObj [(''id'', JStr ''https://b.example/foo-2'')],
      JObj [(''id'', JStr ''https://c.example/foo'')]])])
   = Inr ([\<lparr>plugin_id = ''https://a.example/foo'', nodes = [],
            repo_url = Some ''https://a.example/foo'', slug = Some ''foo'',
            reason = Some ''plugin_id'', status = Planned, message = None,
            requirements = []\<rparr>,
           \<lparr>plugin_id = ''https://b.example/foo-2'', nodes = [],
            repo_url = Some ''https://b.example/foo-2'', slug = Some ''foo-2'',
            reason = Some ''plugin_id'', status = Planned, message = None,
            requirements = []\<rparr>,
           \<lparr>plugin_id = ''https://c.example/foo'', nodes = [],
            repo_url = Some ''https://c.example/foo'', slug = Some ''foo-3'',
            reason = Some ''plugin_id'', status = Planned, message = None,
            requirements = []\<rparr>], [])
   \<and> slugify (url_slug_part ''https://a.example/foo'') = ''foo''
   \<and> slugify (url_slug_part ''https://b.example/foo-2'') = ''foo-2''
   \<and> slugify (url_slug_part ''https://c.example/foo'') = ''foo''"
  by (simp add: plan_eval)

section \<open>Verification: the requirement aggregator\<close>


























subsection \<open>Requirement-file discovery\<close>
















section \<open>Verification: materialization and the main program\<close>





















end
